theory Spec2Isabelle
  imports Complex_Main
begin

section \<open>Python values used by \<open>weibo/main.py\<close>\<close>

text \<open>
  A Python \<open>str\<close> is a sequence of Unicode code points; the keywords this program is run
  with are Chinese, so a string is modelled as the list of its code points.
  \<open>ascii\<close> writes an ASCII literal as such a list.
\<close>

type_synonym pystr = "nat list"

definition ascii :: "string \<Rightarrow> pystr" where
  "ascii s = map of_char s"

definition comma :: nat where
  "comma = 44"

definition hyphen :: nat where
  "hyphen = 45"

text \<open>
  The code points for which \<open>str.isspace()\<close> holds; \<open>str.strip()\<close> with no argument
  removes exactly these from both ends.
\<close>

definition isspace :: "nat \<Rightarrow> bool" where
  "isspace c \<longleftrightarrow>
     c \<in> set [9, 10, 11, 12, 13, 28, 29, 30, 31, 32, 133, 160, 5760,
               8192, 8193, 8194, 8195, 8196, 8197, 8198, 8199, 8200, 8201, 8202,
               8232, 8233, 8239, 8287, 12288]"

definition strip :: "pystr \<Rightarrow> pystr" where
  "strip s = rev (dropWhile isspace (rev (dropWhile isspace s)))"

text \<open>
  \<open>s.split(sep)\<close> for a one-character separator: the pieces between the separators,
  one more than there are separators, empty pieces kept.
\<close>

fun split :: "nat \<Rightarrow> pystr \<Rightarrow> pystr list" where
  "split sep [] = [ [] ]"
| "split sep (c # cs) =
     (if c = sep then [] # split sep cs
      else (case split sep cs of
              [] \<Rightarrow> [ [c] ]
            | p # ps \<Rightarrow> (c # p) # ps))"

text \<open>\<open>sep.join(xs)\<close> for a one-character separator.\<close>

fun join :: "nat \<Rightarrow> pystr list \<Rightarrow> pystr" where
  "join sep [] = []"
| "join sep [x] = x"
| "join sep (x # y # ys) = x @ sep # join sep (y # ys)"

text \<open>
  The values a setting or a parsed argument holds here: \<open>None\<close>, a \<open>str\<close>, an \<open>int\<close>,
  a \<open>float\<close> and a list of \<open>str\<close>. Floats are only carried from \<open>--delay\<close> to the
  setting and tested against zero, so their type is a parameter \<open>'f\<close>.
\<close>

datatype 'f pyval =
    VNone
  | VStr pystr
  | VInt int
  | VFloat 'f
  | VList "pystr list"

text \<open>Python truthiness, as \<open>if x:\<close> and \<open>not x\<close> test it.\<close>

fun truthy :: "'f::zero pyval \<Rightarrow> bool" where
  "truthy VNone = False"
| "truthy (VStr s) = (s \<noteq> [])"
| "truthy (VInt n) = (n \<noteq> 0)"
| "truthy (VFloat x) = (x \<noteq> 0)"
| "truthy (VList xs) = (xs \<noteq> [])"

text \<open>
  An optional string argument of argparse is \<open>None\<close> or a \<open>str\<close>;
  \<open>if args.x:\<close> holds for a non-empty string only.
\<close>

fun given :: "pystr option \<Rightarrow> bool" where
  "given None = False"
| "given (Some s) = (s \<noteq> [])"

section \<open>The parsed command line\<close>

text \<open>
  The namespace \<open>parse_arguments\<close> returns (\<open>keywords_arg\<close> is its \<open>keywords\<close>,
  a reserved word here). Every option but \<open>--log-level\<close> has no
  default, so it is \<open>None\<close> when the flag is absent.
\<close>

record 'f args =
  keywords_arg :: "pystr option"
  keyword_file :: "pystr option"
  start_date :: "pystr option"
  end_date :: "pystr option"
  weibo_type :: "int option"
  contain_type :: "int option"
  region :: "pystr option"
  limit :: "int option"
  delay :: "'f option"
  output_dir :: "pystr option"
  log_level :: pystr

text \<open>The namespace of a command line with no flag at all.\<close>

definition no_flags :: "'f args" where
  "no_flags =
     \<lparr>keywords_arg = None, keyword_file = None, start_date = None, end_date = None,
      weibo_type = None, contain_type = None, region = None, limit = None, delay = None,
      output_dir = None, log_level = ascii ''ERROR''\<rparr>"

section \<open>Settings\<close>

text \<open>
  The Scrapy settings object, as a dictionary from setting names to values.
  \<open>settings.set(name, value)\<close> stores the value under the name (the settings of
  \<open>get_project_settings()\<close> hold no entry of a priority above the one \<open>set\<close> writes
  with, and are not frozen before the crawler process takes them);
  \<open>settings.get(name, default)\<close> gives the default for a missing name and for a stored
  \<open>None\<close>.
\<close>

type_synonym 'f settings = "string \<rightharpoonup> 'f pyval"

definition settings_set :: "'f settings \<Rightarrow> string \<Rightarrow> 'f pyval \<Rightarrow> 'f settings" where
  "settings_set st name v = st(name \<mapsto> v)"

definition settings_get :: "'f settings \<Rightarrow> string \<Rightarrow> 'f pyval \<Rightarrow> 'f pyval" where
  "settings_get st name dflt =
     (case st name of
        None \<Rightarrow> dflt
      | Some VNone \<Rightarrow> dflt
      | Some v \<Rightarrow> v)"

section \<open>Standard output\<close>

text \<open>
  The messages of the program are Chinese text with values spliced in. A printed line is
  modelled by a constructor naming the message and carrying the spliced values
  (\<open>None\<close> where the message prints a fixed text in place of the value). Standard output
  takes every string it is given.
\<close>

datatype name_lookup = Known int | Unknown

text \<open>
  The exceptions that occur. \<open>SystemExit\<close> and \<open>KeyboardInterrupt\<close> are not
  subclasses of \<open>Exception\<close>, so \<open>except Exception\<close> lets them pass.
\<close>

datatype exc =
    SystemExit int
  | KeyboardInterrupt
  | ValueError
  | TypeError
  | OtherException string

fun is_Exception :: "exc \<Rightarrow> bool" where
  "is_Exception (SystemExit n) = False"
| "is_Exception KeyboardInterrupt = False"
| "is_Exception e = True"

datatype validation_error =
    StartDateFormat pystr
  | EndDateFormat pystr
  | StartAfterEnd
  | KeywordFileMissing pystr
  | OutputDirFailed pystr string

datatype 'f line =
    L_starting
  | L_validation_failed
  | L_validation_item validation_error
  | L_use_keywords "pystr list"
  | L_use_keyword_file pystr
  | L_start_date pystr
  | L_end_date pystr
  | L_weibo_type name_lookup
  | L_contain_type name_lookup
  | L_region "pystr list"
  | L_limit "int option"
  | L_delay 'f
  | L_output_dir pystr
  | L_log_level pystr
  | L_summary_rule
  | L_summary_title
  | L_summary_keyword_file pystr
  | L_summary_keywords "pystr list option"
  | L_summary_dates "'f pyval" "'f pyval"
  | L_summary_weibo_type "'f pyval"
  | L_summary_contain_type "'f pyval"
  | L_summary_region "'f pyval"
  | L_summary_limit "'f pyval"
  | L_summary_delay "'f pyval"
  | L_no_keywords
  | L_no_keywords_hint
  | L_no_keywords_example
  | L_ready
  | L_ctrl_c
  | L_finished
  | L_interrupted
  | L_runtime_error exc

section \<open>\<open>update_settings_from_args\<close>\<close>

text \<open>
  The names behind \<open>--weibo-type\<close> and \<open>--contain-type\<close>:
  \<open>type_names.get(n, ...)\<close> finds a name for 0..6, \<open>contain_names.get(n, ...)\<close> for 0..4.
\<close>

definition type_names_get :: "int \<Rightarrow> name_lookup" where
  "type_names_get n = (if 0 \<le> n \<and> n \<le> 6 then Known n else Unknown)"

definition contain_names_get :: "int \<Rightarrow> name_lookup" where
  "contain_names_get n = (if 0 \<le> n \<and> n \<le> 4 then Known n else Unknown)"

text \<open>
  \<open>[kw.strip() for kw in s.split(',') if kw.strip()]\<close>, the comprehension applied to
  \<open>--keywords\<close> and to \<open>--region\<close>.
\<close>

definition split_strip :: "pystr \<Rightarrow> pystr list" where
  "split_strip s = map strip (filter (\<lambda>kw. strip kw \<noteq> []) (split comma s))"

text \<open>
  The function is a sequence of independent blocks, each guarded by its flag; every block
  returns the settings it leaves and the lines it prints.
\<close>

definition update_keywords ::
  "'f args \<Rightarrow> 'f settings \<Rightarrow> 'f settings \<times> 'f line list" where
  "update_keywords a st =
     (if given (keywords_arg a) then
        (case keywords_arg a of
           Some s \<Rightarrow>
             (settings_set st ''KEYWORD_LIST'' (VList (split_strip s)),
              [L_use_keywords (split_strip s)])
         | None \<Rightarrow> (st, []))
      else if given (keyword_file a) then
        (case keyword_file a of
           Some f \<Rightarrow> (settings_set st ''KEYWORD_LIST'' (VStr f), [L_use_keyword_file f])
         | None \<Rightarrow> (st, []))
      else (st, []))"

definition update_start_date ::
  "'f args \<Rightarrow> 'f settings \<Rightarrow> 'f settings \<times> 'f line list" where
  "update_start_date a st =
     (case start_date a of
        Some s \<Rightarrow>
          (if s \<noteq> [] then (settings_set st ''START_DATE'' (VStr s), [L_start_date s])
           else (st, []))
      | None \<Rightarrow> (st, []))"

definition update_end_date ::
  "'f args \<Rightarrow> 'f settings \<Rightarrow> 'f settings \<times> 'f line list" where
  "update_end_date a st =
     (case end_date a of
        Some s \<Rightarrow>
          (if s \<noteq> [] then (settings_set st ''END_DATE'' (VStr s), [L_end_date s])
           else (st, []))
      | None \<Rightarrow> (st, []))"

definition update_weibo_type ::
  "'f args \<Rightarrow> 'f settings \<Rightarrow> 'f settings \<times> 'f line list" where
  "update_weibo_type a st =
     (case weibo_type a of
        Some n \<Rightarrow> (settings_set st ''WEIBO_TYPE'' (VInt n), [L_weibo_type (type_names_get n)])
      | None \<Rightarrow> (st, []))"

definition update_contain_type ::
  "'f args \<Rightarrow> 'f settings \<Rightarrow> 'f settings \<times> 'f line list" where
  "update_contain_type a st =
     (case contain_type a of
        Some n \<Rightarrow>
          (settings_set st ''CONTAIN_TYPE'' (VInt n), [L_contain_type (contain_names_get n)])
      | None \<Rightarrow> (st, []))"

definition update_region ::
  "'f args \<Rightarrow> 'f settings \<Rightarrow> 'f settings \<times> 'f line list" where
  "update_region a st =
     (case region a of
        Some s \<Rightarrow>
          (if s \<noteq> [] then
             (settings_set st ''REGION'' (VList (split_strip s)), [L_region (split_strip s)])
           else (st, []))
      | None \<Rightarrow> (st, []))"

definition update_limit ::
  "'f args \<Rightarrow> 'f settings \<Rightarrow> 'f settings \<times> 'f line list" where
  "update_limit a st =
     (case limit a of
        Some n \<Rightarrow>
          (settings_set st ''LIMIT_RESULT'' (VInt n),
           [L_limit (if n > 0 then Some n else None)])
      | None \<Rightarrow> (st, []))"

definition update_delay ::
  "'f args \<Rightarrow> 'f settings \<Rightarrow> 'f settings \<times> 'f line list" where
  "update_delay a st =
     (case delay a of
        Some x \<Rightarrow> (settings_set st ''DOWNLOAD_DELAY'' (VFloat x), [L_delay x])
      | None \<Rightarrow> (st, []))"

definition update_output_dir ::
  "'f args \<Rightarrow> 'f settings \<Rightarrow> 'f settings \<times> 'f line list" where
  "update_output_dir a st =
     (case output_dir a of
        Some d \<Rightarrow>
          (if d \<noteq> [] then
             (settings_set (settings_set st ''IMAGES_STORE'' (VStr d)) ''FILES_STORE'' (VStr d),
              [L_output_dir d])
           else (st, []))
      | None \<Rightarrow> (st, []))"

definition update_log_level ::
  "'f args \<Rightarrow> 'f settings \<Rightarrow> 'f settings \<times> 'f line list" where
  "update_log_level a st =
     (settings_set st ''LOG_LEVEL'' (VStr (log_level a)),
      if log_level a \<noteq> ascii ''ERROR'' then [L_log_level (log_level a)] else [])"

text \<open>Running the blocks in the order of the source, the output accumulated.\<close>

fun run_blocks ::
  "('f settings \<Rightarrow> 'f settings \<times> 'f line list) list \<Rightarrow> 'f settings \<Rightarrow>
     'f settings \<times> 'f line list" where
  "run_blocks [] st = (st, [])"
| "run_blocks (b # bs) st =
     (case b st of (st1, out1) \<Rightarrow>
        (case run_blocks bs st1 of (st2, out2) \<Rightarrow> (st2, out1 @ out2)))"

definition update_settings_from_args ::
  "'f settings \<Rightarrow> 'f args \<Rightarrow> 'f settings \<times> 'f line list" where
  "update_settings_from_args st a =
     run_blocks
       [update_keywords a, update_start_date a, update_end_date a, update_weibo_type a,
        update_contain_type a, update_region a, update_limit a, update_delay a,
        update_output_dir a, update_log_level a] st"

section \<open>\<open>datetime.strptime(s, '%Y-%m-%d')\<close>\<close>

text \<open>
  The library call the two date functions make, with this one format. CPython turns the
  format into the regular expression
  \<^verbatim>\<open>(?P<Y>\d\d\d\d)-(?P<m>1[0-2]|0[1-9]|[1-9])-(?P<d>3[0-1]|[1-2]\d|0[1-9]|[1-9]| [1-9])\<close>,
  matches it at the start of the string, raises \<open>ValueError\<close> when there is no match or
  when text remains after the match, converts the three groups with \<open>int\<close> and builds
  the date, which raises \<open>ValueError\<close> for a year outside 1..9999 and for a day the month
  does not have.

  \<^verbatim>\<open>\d\<close> matches every code point of category Nd. These come in runs of ten, in the
  order of their values; \<open>digit_starts\<close> lists where the runs start (Unicode 14, the table
  of CPython 3.11).
\<close>

definition digit_starts :: "nat list" where
  "digit_starts =
     [48, 1632, 1776, 1984, 2406, 2534, 2662, 2790, 2918, 3046, 3174, 3302, 3430, 3558,
      3664, 3792, 3872, 4160, 4240, 6112, 6160, 6470, 6608, 6784, 6800, 6992, 7088, 7232,
      7248, 42528, 43216, 43264, 43472, 43504, 43600, 44016, 65296, 66720, 68912, 69734,
      69872, 69942, 70096, 70384, 70736, 70864, 71248, 71360, 71472, 71904, 72016, 72784,
      73040, 73120, 92768, 92864, 93008, 120782, 120792, 120802, 120812, 120822, 123200,
      123632, 125264, 130032]"

definition digit_value :: "nat \<Rightarrow> nat option" where
  "digit_value c =
     (case find (\<lambda>s. s \<le> c \<and> c < s + 10) digit_starts of
        None \<Rightarrow> None
      | Some s \<Rightarrow> Some (c - s))"

definition isdecimal :: "nat \<Rightarrow> bool" where
  "isdecimal c \<longleftrightarrow> digit_value c \<noteq> None"

text \<open>
  A backtracking matcher gives, for a string, the ways it can match at its start, in the
  order the matcher tries them: each the matched text and the rest of the string.
\<close>

type_synonym matcher = "pystr \<Rightarrow> (pystr \<times> pystr) list"

definition re_class :: "(nat \<Rightarrow> bool) \<Rightarrow> matcher" where
  "re_class P s = (case s of [] \<Rightarrow> [] | c # r \<Rightarrow> if P c then [([c], r)] else [])"

definition re_chr :: "nat \<Rightarrow> matcher" where
  "re_chr k = re_class (\<lambda>c. c = k)"

definition re_range :: "nat \<Rightarrow> nat \<Rightarrow> matcher" where
  "re_range lo hi = re_class (\<lambda>c. lo \<le> c \<and> c \<le> hi)"

definition re_seq :: "matcher \<Rightarrow> matcher \<Rightarrow> matcher" where
  "re_seq p q s = [(x @ y, r'). (x, r) \<leftarrow> p s, (y, r') \<leftarrow> q r]"

definition re_alt :: "matcher \<Rightarrow> matcher \<Rightarrow> matcher" where
  "re_alt p q s = p s @ q s"

text \<open>\<^verbatim>\<open>\d\d\d\d\<close>\<close>

definition re_Y :: matcher where
  "re_Y = re_seq (re_class isdecimal) (re_seq (re_class isdecimal)
            (re_seq (re_class isdecimal) (re_class isdecimal)))"

text \<open>\<^verbatim>\<open>1[0-2]|0[1-9]|[1-9]\<close>\<close>

definition re_m :: matcher where
  "re_m = re_alt (re_seq (re_chr 49) (re_range 48 50))
            (re_alt (re_seq (re_chr 48) (re_range 49 57))
               (re_range 49 57))"

text \<open>\<^verbatim>\<open>3[0-1]|[1-2]\d|0[1-9]|[1-9]| [1-9]\<close>\<close>

definition re_d :: matcher where
  "re_d = re_alt (re_seq (re_chr 51) (re_range 48 49))
            (re_alt (re_seq (re_range 49 50) (re_class isdecimal))
               (re_alt (re_seq (re_chr 48) (re_range 49 57))
                  (re_alt (re_range 49 57)
                     (re_seq (re_chr 32) (re_range 49 57)))))"

text \<open>
  The whole expression, with its three groups. \<open>format_regex.match\<close> returns the first
  way to match, if there is one.
\<close>

definition format_regex :: "pystr \<Rightarrow> ((pystr \<times> pystr \<times> pystr) \<times> pystr) list" where
  "format_regex s =
     [((Y, m, d), r5).
        (Y, r1) \<leftarrow> re_Y s, (h1, r2) \<leftarrow> re_chr hyphen r1, (m, r3) \<leftarrow> re_m r2,
        (h2, r4) \<leftarrow> re_chr hyphen r3, (d, r5) \<leftarrow> re_d r4]"

definition format_regex_match :: "pystr \<Rightarrow> ((pystr \<times> pystr \<times> pystr) \<times> pystr) option" where
  "format_regex_match s = (case format_regex s of [] \<Rightarrow> None | x # xs \<Rightarrow> Some x)"

text \<open>
  \<open>int(text)\<close> on text without sign or underscore, which is all a group can hold:
  whitespace around the digits is dropped, and anything but digits is a \<open>ValueError\<close>.
  The whitespace \<open>int\<close> drops is that of \<open>str.isspace()\<close> without the four separator
  controls 28 to 31.
\<close>

definition int_space :: "nat \<Rightarrow> bool" where
  "int_space c \<longleftrightarrow> isspace c \<and> \<not> (28 \<le> c \<and> c \<le> 31)"

definition int_strip :: "pystr \<Rightarrow> pystr" where
  "int_strip s = rev (dropWhile int_space (rev (dropWhile int_space s)))"

definition digit_of :: "nat \<Rightarrow> nat" where
  "digit_of c = (case digit_value c of None \<Rightarrow> 0 | Some v \<Rightarrow> v)"

definition py_int :: "pystr \<Rightarrow> exc + nat" where
  "py_int s =
     (let t = int_strip s in
      if t \<noteq> [] \<and> list_all isdecimal t
      then Inr (foldl (\<lambda>n c. 10 * n + digit_of c) 0 t)
      else Inl ValueError)"

text \<open>
  The date a \<open>datetime\<close> holds; its time of day is midnight whenever it comes from this
  format, so \<open>start > end\<close> compares year, month and day in this order.
\<close>

record date =
  year :: nat
  month :: nat
  day :: nat

definition isleap :: "nat \<Rightarrow> bool" where
  "isleap y \<longleftrightarrow> y mod 4 = 0 \<and> (y mod 100 \<noteq> 0 \<or> y mod 400 = 0)"

definition days_in_month :: "nat \<Rightarrow> nat \<Rightarrow> nat" where
  "days_in_month y m =
     (if m = 2 then (if isleap y then 29 else 28)
      else if m = 4 \<or> m = 6 \<or> m = 9 \<or> m = 11 then 30
      else 31)"

definition datetime :: "nat \<Rightarrow> nat \<Rightarrow> nat \<Rightarrow> exc + date" where
  "datetime y m d =
     (if 1 \<le> y \<and> y \<le> 9999 \<and> 1 \<le> m \<and> m \<le> 12 \<and> 1 \<le> d \<and> d \<le> days_in_month y m
      then Inr \<lparr>year = y, month = m, day = d\<rparr>
      else Inl ValueError)"

definition date_gt :: "date \<Rightarrow> date \<Rightarrow> bool" where
  "date_gt a b \<longleftrightarrow>
     year a > year b \<or>
     (year a = year b \<and> (month a > month b \<or> (month a = month b \<and> day a > day b)))"

definition strptime :: "pystr \<Rightarrow> exc + date" where
  "strptime s =
     (case format_regex_match s of
        None \<Rightarrow> Inl ValueError
      | Some ((Y, m, d), rest) \<Rightarrow>
          if rest \<noteq> [] then Inl ValueError
          else (case py_int Y of
                  Inl e \<Rightarrow> Inl e
                | Inr y \<Rightarrow>
                    (case py_int m of
                       Inl e \<Rightarrow> Inl e
                     | Inr mo \<Rightarrow>
                         (case py_int d of
                            Inl e \<Rightarrow> Inl e
                          | Inr dd \<Rightarrow> datetime y mo dd))))"

section \<open>\<open>validate_date\<close>\<close>

text \<open>\<open>except ValueError\<close> catches that exception and no other.\<close>

definition validate_date :: "pystr \<Rightarrow> exc + bool" where
  "validate_date date_string =
     (case strptime date_string of
        Inr d \<Rightarrow> Inr True
      | Inl ValueError \<Rightarrow> Inr False
      | Inl e \<Rightarrow> Inl e)"

section \<open>What the program does to the world\<close>

text \<open>
  The calls that leave the program: the parsed command line, the file system, the project
  settings and the crawler process. Each is a field giving what the call returns or
  raises (\<open>Inl\<close>, or \<open>Some\<close> for a call with no result). \<open>os.makedirs\<close> raises
  subclasses of \<open>Exception\<close> only (\<open>OSError\<close> and the like), so its field gives the
  message of the exception; an interrupt from the keyboard is modelled where the program
  expects one, in the calls of the crawler process and the project settings.
\<close>

record 'f world =
  parse_arguments :: "exc + 'f args"
  isfile :: "pystr \<Rightarrow> bool"
  isdir :: "pystr \<Rightarrow> bool"
  makedirs :: "pystr \<Rightarrow> string option"
  get_project_settings :: "exc + 'f settings"
  CrawlerProcess :: "'f settings \<Rightarrow> exc option"
  crawl :: "string \<Rightarrow> exc option"
  start :: "exc option"

text \<open>
  A world for examples: the command line parses to the given namespace, every path is an
  existing file and directory, the project settings are the given ones and the crawler
  process raises nothing.
\<close>

definition world_of :: "'f args \<Rightarrow> 'f settings \<Rightarrow> 'f world" where
  "world_of a st =
     \<lparr>parse_arguments = Inr a, isfile = (\<lambda>p. True), isdir = (\<lambda>p. True),
      makedirs = (\<lambda>p. None), get_project_settings = Inr st,
      CrawlerProcess = (\<lambda>s. None), crawl = (\<lambda>n. None), start = None\<rparr>"

text \<open>
  Further data for examples: the command line \<open>--keywords a\<close>, and project settings whose
  only entry is a \<open>WEIBO_TYPE\<close> that is a list.
\<close>

definition keyword_a :: "'f args" where
  "keyword_a = no_flags\<lparr>keywords_arg := Some [97]\<rparr>"

definition list_weibo_type :: "'f settings" where
  "list_weibo_type = [''WEIBO_TYPE'' \<mapsto> VList [ [49] ] ]"

text \<open>What an observer sees, in order: printed lines and calls that act on the world.\<close>

datatype 'f event =
    Print "'f line"
  | Call_makedirs pystr
  | Call_get_project_settings
  | Call_CrawlerProcess "'f settings"
  | Call_crawl string
  | Call_start

text \<open>
  A piece of the program gives the events it causes and either its result or the
  exception that ends it.
\<close>

type_synonym ('f, 'a) run = "'f event list \<times> (exc + 'a)"

definition ret :: "'a \<Rightarrow> ('f, 'a) run" where
  "ret x = ([], Inr x)"

definition throw :: "exc \<Rightarrow> ('f, 'a) run" where
  "throw e = ([], Inl e)"

definition and_then :: "('f, 'a) run \<Rightarrow> ('a \<Rightarrow> ('f, 'b) run) \<Rightarrow> ('f, 'b) run" where
  "and_then m f =
     (case m of
        (tr, Inl e) \<Rightarrow> (tr, Inl e)
      | (tr, Inr x) \<Rightarrow> (case f x of (tr', r) \<Rightarrow> (tr @ tr', r)))"

definition say :: "'f line list \<Rightarrow> ('f, unit) run" where
  "say ls = (map Print ls, Inr ())"

definition call :: "'f event \<Rightarrow> exc option \<Rightarrow> ('f, unit) run" where
  "call ev r = ([ev], case r of None \<Rightarrow> Inr () | Some e \<Rightarrow> Inl e)"

definition lift :: "exc + 'a \<Rightarrow> ('f, 'a) run" where
  "lift r = ([], r)"

section \<open>\<open>validate_arguments\<close>\<close>

text \<open>Each check gives what it appends to \<open>errors\<close>.\<close>

definition check_date_format ::
  "(pystr \<Rightarrow> validation_error) \<Rightarrow> pystr option \<Rightarrow> ('f, validation_error list) run" where
  "check_date_format mk d =
     (case d of
        None \<Rightarrow> ret []
      | Some s \<Rightarrow>
          if s = [] then ret []
          else and_then (lift (validate_date s)) (\<lambda>ok. ret (if ok then [] else [mk s])))"

text \<open>The two \<open>strptime\<close> calls here are outside any \<open>try\<close>.\<close>

definition check_date_order ::
  "pystr option \<Rightarrow> pystr option \<Rightarrow> ('f, validation_error list) run" where
  "check_date_order sd ed =
     (if given sd \<and> given ed then
        (case (sd, ed) of
           (Some s, Some e) \<Rightarrow>
             and_then (lift (strptime s)) (\<lambda>start.
             and_then (lift (strptime e)) (\<lambda>end.
             ret (if date_gt start end then [StartAfterEnd] else [])))
         | _ \<Rightarrow> ret [])
      else ret [])"

definition check_keyword_file ::
  "'f world \<Rightarrow> pystr option \<Rightarrow> ('f, validation_error list) run" where
  "check_keyword_file w kf =
     (case kf of
        None \<Rightarrow> ret []
      | Some f \<Rightarrow> ret (if f \<noteq> [] \<and> \<not> isfile w f then [KeywordFileMissing f] else []))"

definition check_output_dir ::
  "'f world \<Rightarrow> pystr option \<Rightarrow> ('f, validation_error list) run" where
  "check_output_dir w od =
     (case od of
        None \<Rightarrow> ret []
      | Some d \<Rightarrow>
          if d \<noteq> [] \<and> \<not> isdir w d then
            (case makedirs w d of
               None \<Rightarrow> ([Call_makedirs d], Inr [])
             | Some e \<Rightarrow> ([Call_makedirs d], Inr [OutputDirFailed d e]))
          else ret [])"

text \<open>The list \<open>errors\<close> as it stands when the function reaches \<open>if errors:\<close>.\<close>

definition collect_errors :: "'f world \<Rightarrow> 'f args \<Rightarrow> ('f, validation_error list) run" where
  "collect_errors w a =
     and_then (check_date_format StartDateFormat (start_date a)) (\<lambda>e1.
     and_then (check_date_format EndDateFormat (end_date a)) (\<lambda>e2.
     and_then (check_date_order (start_date a) (end_date a)) (\<lambda>e3.
     and_then (check_keyword_file w (keyword_file a)) (\<lambda>e4.
     and_then (check_output_dir w (output_dir a)) (\<lambda>e5.
     ret (e1 @ e2 @ e3 @ e4 @ e5))))))"

definition validate_arguments :: "'f world \<Rightarrow> 'f args \<Rightarrow> ('f, unit) run" where
  "validate_arguments w a =
     and_then (collect_errors w a) (\<lambda>errors.
     if errors \<noteq> [] then
       and_then (say (L_validation_failed # map L_validation_item errors)) (\<lambda>u.
       throw (SystemExit 1))
     else ret ())"

section \<open>\<open>print_config_summary\<close>\<close>

text \<open>
  The default texts: \<open>not_set\<close> is the three characters printed for a missing date,
  \<open>all_regions\<close> the two of the default region.
\<close>

definition not_set :: pystr where
  "not_set = [26410, 35774, 32622]"

definition all_regions :: pystr where
  "all_regions = [20840, 37096]"

text \<open>
  \<open>', '.join(keyword_list)\<close> raises \<open>TypeError\<close> for a number; a dictionary lookup
  raises \<open>TypeError\<close> for a list, which is not hashable.
\<close>

definition summary_keywords :: "'f::zero pyval \<Rightarrow> ('f, unit) run" where
  "summary_keywords keyword_list =
     (case keyword_list of
        VStr f \<Rightarrow> say [L_summary_keyword_file f]
      | VList xs \<Rightarrow> say [L_summary_keywords (if xs \<noteq> [] then Some xs else None)]
      | v \<Rightarrow> if truthy v then throw TypeError else say [L_summary_keywords None])"

definition summary_lookup :: "('f pyval \<Rightarrow> 'f line) \<Rightarrow> 'f pyval \<Rightarrow> ('f, unit) run" where
  "summary_lookup mk v = (case v of VList xs \<Rightarrow> throw TypeError | k \<Rightarrow> say [mk k])"

text \<open>
  A value spliced into an f-string is converted to text. For an \<open>int\<close> of more than 4300
  decimal digits the conversion raises \<open>ValueError\<close> (the default limit of
  \<open>sys.set_int_max_str_digits\<close>); the other values convert.
\<close>

definition int_max_str_digits :: nat where
  "int_max_str_digits = 4300"

fun formats :: "'f pyval \<Rightarrow> bool" where
  "formats (VInt n) = (\<bar>n\<bar> < 10 ^ int_max_str_digits)"
| "formats v = True"

text \<open>A line that splices the given values: printed when all of them convert.\<close>

definition summary_format :: "'f pyval list \<Rightarrow> 'f line \<Rightarrow> ('f, unit) run" where
  "summary_format vs l = (if list_all formats vs then say [l] else throw ValueError)"

text \<open>\<open>limit == 0\<close>, which holds for the integer and for the float zero.\<close>

fun equals_zero :: "'f::zero pyval \<Rightarrow> bool" where
  "equals_zero (VInt n) = (n = 0)"
| "equals_zero (VFloat x) = (x = 0)"
| "equals_zero v = False"

text \<open>The limit is spliced only when it is not zero.\<close>

definition summary_limit :: "'f::zero pyval \<Rightarrow> ('f, unit) run" where
  "summary_limit limit_value =
     (if equals_zero limit_value then say [L_summary_limit limit_value]
      else summary_format [limit_value] (L_summary_limit limit_value))"

definition print_config_summary :: "'f::zero settings \<Rightarrow> ('f, unit) run" where
  "print_config_summary st =
     and_then (say [L_summary_rule, L_summary_title, L_summary_rule]) (\<lambda>u.
     and_then (summary_keywords (settings_get st ''KEYWORD_LIST'' (VList []))) (\<lambda>u.
     and_then (summary_format
                 [settings_get st ''START_DATE'' (VStr not_set),
                  settings_get st ''END_DATE'' (VStr not_set)]
                 (L_summary_dates (settings_get st ''START_DATE'' (VStr not_set))
                                  (settings_get st ''END_DATE'' (VStr not_set)))) (\<lambda>u.
     and_then (summary_lookup L_summary_weibo_type (settings_get st ''WEIBO_TYPE'' (VInt 0))) (\<lambda>u.
     and_then (summary_lookup L_summary_contain_type
                 (settings_get st ''CONTAIN_TYPE'' (VInt 0))) (\<lambda>u.
     and_then (summary_format [settings_get st ''REGION'' (VList [all_regions])]
                 (L_summary_region (settings_get st ''REGION'' (VList [all_regions])))) (\<lambda>u.
     and_then (summary_limit (settings_get st ''LIMIT_RESULT'' (VInt 0))) (\<lambda>u.
     and_then (summary_format [settings_get st ''DOWNLOAD_DELAY'' (VInt 10)]
                 (L_summary_delay (settings_get st ''DOWNLOAD_DELAY'' (VInt 10)))) (\<lambda>u.
     say [L_summary_rule]))))))))"

section \<open>\<open>main\<close>\<close>

text \<open>
  An exception that leaves \<open>main\<close> ends the process: \<open>SystemExit n\<close> with the exit code
  \<open>n\<close>, any other with a traceback. A run of \<open>main\<close> that returns ends it with the exit
  code 0.
\<close>

text \<open>The body of the \<open>try\<close>.\<close>

definition crawl_body :: "'f::zero world \<Rightarrow> 'f args \<Rightarrow> ('f, unit) run" where
  "crawl_body w a =
     and_then ([Call_get_project_settings], get_project_settings w) (\<lambda>settings0.
     (case update_settings_from_args settings0 a of (settings, out) \<Rightarrow>
     and_then (say out) (\<lambda>u.
     and_then (print_config_summary settings) (\<lambda>u.
     if \<not> truthy (settings_get settings ''KEYWORD_LIST'' VNone) then
       and_then (say [L_no_keywords, L_no_keywords_hint, L_no_keywords_example]) (\<lambda>u.
       throw (SystemExit 1))
     else
       and_then (say [L_ready, L_ctrl_c]) (\<lambda>u.
       and_then (call (Call_CrawlerProcess settings) (CrawlerProcess w settings)) (\<lambda>process.
       and_then (call (Call_crawl ''search'') (crawl w ''search'')) (\<lambda>u.
       and_then (call Call_start (start w)) (\<lambda>u.
       say [L_finished]))))))))"

text \<open>The two \<open>except\<close> clauses.\<close>

definition handlers :: "('f, unit) run \<Rightarrow> ('f, unit) run" where
  "handlers m =
     (case m of
        (tr, Inr x) \<Rightarrow> (tr, Inr x)
      | (tr, Inl KeyboardInterrupt) \<Rightarrow> (tr @ [Print L_interrupted], Inl (SystemExit 0))
      | (tr, Inl e) \<Rightarrow>
          if is_Exception e then (tr @ [Print (L_runtime_error e)], Inl (SystemExit 1))
          else (tr, Inl e))"

definition main :: "'f::zero world \<Rightarrow> ('f, unit) run" where
  "main w =
     and_then (say [L_starting]) (\<lambda>u.
     and_then (lift (parse_arguments w)) (\<lambda>args.
     and_then (validate_arguments w args) (\<lambda>u.
     handlers (crawl_body w args))))"

text \<open>The events that reach the crawl engine.\<close>

fun engine_event :: "'f event \<Rightarrow> bool" where
  "engine_event (Call_CrawlerProcess st) = True"
| "engine_event (Call_crawl name) = True"
| "engine_event Call_start = True"
| "engine_event ev = False"

section \<open>The crawl engine, from the specification\<close>

text \<open>
  Modelled from the spec: the spider \<open>search\<close> that \<open>main\<close> hands the settings to (task
  enumeration, pagination, dedup and the progress ledger, sections 3, 4.1, 4.2, 4.4 and
  4.5 of the specification) is not in \<open>main.py\<close>. The definitions of this section follow
  the words of the specification.

  A calendar day is its day number, consecutive days having consecutive numbers.
\<close>

text \<open>
  Modelled from the spec: a search task (section 3), the unit of crawl work; \<open>task_region\<close>,
  \<open>task_weibo_type\<close> and \<open>task_contain_type\<close> are its \<open>region\<close>, \<open>weibo_type\<close> and
  \<open>contain_type\<close>.
\<close>

record SearchTask =
  keyword :: pystr
  date_start :: int
  date_end :: int
  task_region :: "pystr option"
  task_weibo_type :: nat
  task_contain_type :: nat

text \<open>
  Modelled from the spec: the calendar days of a task, \<open>date_start\<close> to \<open>date_end\<close> with both
  ends (the invariant is \<open>date_start \<le> date_end\<close>, and a one-day task has the two equal).
\<close>

definition days :: "SearchTask \<Rightarrow> int set" where
  "days t = {date_start t .. date_end t}"

text \<open>
  Modelled from the spec: \<open>split(task)\<close> bisects the date interval at the midpoint day; the
  first half ends with the midpoint day and the second starts on the day after. A one-day
  task cannot be split.
\<close>

definition midpoint :: "SearchTask \<Rightarrow> int" where
  "midpoint t = (date_start t + date_end t) div 2"

text \<open>
  Modelled from the spec: \<open>split\<close> itself (section 4.1), \<open>None\<close> for the one-day task that
  cannot be split.
\<close>

definition split_task :: "SearchTask \<Rightarrow> (SearchTask \<times> SearchTask) option" where
  "split_task t =
     (if date_start t < date_end t
      then Some (t\<lparr>date_end := midpoint t\<rparr>, t\<lparr>date_start := midpoint t + 1\<rparr>)
      else None)"

text \<open>Modelled from the spec: a post record (section 3); \<open>post_text\<close> is its \<open>text\<close>.\<close>

record PostRecord =
  content_id :: pystr
  author :: pystr
  timestamp :: int
  post_text :: pystr
  media_links :: "pystr list"
  raw_type_flags :: nat

text \<open>
  Modelled from the spec: \<open>dedup(candidate, seen)\<close> accepts a record and adds it to \<open>seen\<close>
  iff its \<open>content_id\<close> is not yet there (section 4.4). It gives whether the record is
  accepted and the set afterwards.
\<close>

definition dedup :: "PostRecord \<Rightarrow> pystr set \<Rightarrow> bool \<times> pystr set" where
  "dedup candidate seen =
     (if content_id candidate \<in> seen then (False, seen)
      else (True, insert (content_id candidate) seen))"

text \<open>
  Modelled from the spec: the cursor within a run (section 3), the index of the task in the
  queue, the page within the task, counted from 1, and the results seen on the task.
\<close>

record PageCursor =
  task_index :: nat
  page_number :: nat
  results_seen_on_task :: nat

text \<open>Modelled from the spec: the ledger of a run (section 3).\<close>

record RunLedger =
  queue :: "SearchTask list"
  cursor :: PageCursor
  emitted_count :: nat
  seen_ids :: "pystr set"

text \<open>
  Modelled from the spec: the ledger created at the start of a fresh run (section 3):
  the first page of the first task, nothing emitted, nothing seen.
\<close>

definition fresh_ledger :: "SearchTask list \<Rightarrow> RunLedger" where
  "fresh_ledger tasks =
     \<lparr>queue = tasks,
      cursor = \<lparr>task_index = 0, page_number = 1, results_seen_on_task = 0\<rparr>,
      emitted_count = 0, seen_ids = {}\<rparr>"

text \<open>
  Modelled from the spec: whether the global stop condition (section 4.2) has ended the
  run.
\<close>

datatype progress = Continue | LimitReached

text \<open>
  Modelled from the spec: the records of one page go through \<open>dedup\<close> in order; an accepted
  record is emitted and counted, a rejected one is dropped silently. After every accepted
  record the result limit is checked (0 is unlimited), and reaching it ends the run at
  once (section 4.2, global stop condition). The result is the records emitted, the
  ledger, and whether the limit ended the run.
\<close>

fun accept_records ::
  "nat \<Rightarrow> PostRecord list \<Rightarrow> RunLedger \<Rightarrow> PostRecord list \<times> RunLedger \<times> progress" where
  "accept_records limit_result [] L = ([], L, Continue)"
| "accept_records limit_result (c # cs) L =
     (case dedup c (seen_ids L) of
        (False, seen) \<Rightarrow> accept_records limit_result cs L
      | (True, seen) \<Rightarrow>
          (if limit_result \<noteq> 0 \<and> limit_result \<le> emitted_count L + 1
           then ([c], L\<lparr>seen_ids := seen, emitted_count := emitted_count L + 1\<rparr>, LimitReached)
           else (case accept_records limit_result cs
                        (L\<lparr>seen_ids := seen, emitted_count := emitted_count L + 1\<rparr>) of
                   (out, L', pr) \<Rightarrow> (c # out, L', pr))))"

text \<open>
  Modelled from the spec: the pages of a task are walked in order. After a page the ledger
  advances the cursor, \<open>page_number\<close> by one and \<open>results_seen_on_task\<close> by the results of
  the page (sections 4.2 and 4.5: the ledger is written after every page); the end of the
  pages is the empty page that ends the task. Fetching, backoff and splitting decide
  which pages there are, so the non-empty pages of the task are given as a list.
\<close>

definition next_page :: "nat \<Rightarrow> RunLedger \<Rightarrow> RunLedger" where
  "next_page n L =
     L\<lparr>cursor := (cursor L)\<lparr>page_number := page_number (cursor L) + 1,
                              results_seen_on_task := results_seen_on_task (cursor L) + n\<rparr>\<rparr>"

text \<open>
  Modelled from the spec: the walk over the pages of one task (section 4.2); a page that
  reaches the limit ends it with the cursor still on that page.
\<close>

fun run_pages ::
  "nat \<Rightarrow> PostRecord list list \<Rightarrow> RunLedger \<Rightarrow> PostRecord list \<times> RunLedger \<times> progress" where
  "run_pages limit_result [] L = ([], L, Continue)"
| "run_pages limit_result (p # ps) L =
     (case accept_records limit_result p L of
        (out, L1, LimitReached) \<Rightarrow> (out, L1, LimitReached)
      | (out, L1, Continue) \<Rightarrow>
          (case run_pages limit_result ps (next_page (length p) L1) of
             (out2, L2, pr) \<Rightarrow> (out @ out2, L2, pr)))"

text \<open>
  Modelled from the spec: the tasks of the queue run one after the other; a task that is
  done moves the cursor to the first page of the next task. The first task of a run
  starts at the page of the cursor, so a run that starts from a stored ledger resumes at
  the stored cursor (section 4.5). \<open>endpoint\<close> gives the non-empty pages of a task.
\<close>

definition next_task :: "RunLedger \<Rightarrow> RunLedger" where
  "next_task L =
     L\<lparr>cursor := \<lparr>task_index = task_index (cursor L) + 1, page_number = 1,
                    results_seen_on_task = 0\<rparr>\<rparr>"

text \<open>
  Modelled from the spec: the walk over the tasks of the queue (section 4.2, state
  \<open>DONE\<close>: advance to the next task; the run ends when the queue is exhausted).
\<close>

fun run_queue ::
  "nat \<Rightarrow> (SearchTask \<Rightarrow> PostRecord list list) \<Rightarrow> SearchTask list \<Rightarrow> RunLedger \<Rightarrow>
     PostRecord list \<times> RunLedger \<times> progress" where
  "run_queue limit_result endpoint [] L = ([], L, Continue)"
| "run_queue limit_result endpoint (t # ts) L =
     (case run_pages limit_result (drop (page_number (cursor L) - 1) (endpoint t)) L of
        (out, L1, LimitReached) \<Rightarrow> (out, L1, LimitReached)
      | (out, L1, Continue) \<Rightarrow>
          (case run_queue limit_result endpoint ts (next_task L1) of
             (out2, L2, pr) \<Rightarrow> (out @ out2, L2, pr)))"

text \<open>
  Modelled from the spec: a run from a ledger, fresh or stored (section 4.5): the tasks of
  the queue from the task of the cursor on.
\<close>

definition run ::
  "nat \<Rightarrow> (SearchTask \<Rightarrow> PostRecord list list) \<Rightarrow> RunLedger \<Rightarrow>
     PostRecord list \<times> RunLedger \<times> progress" where
  "run limit_result endpoint L =
     run_queue limit_result endpoint (drop (task_index (cursor L)) (queue L)) L"

text \<open>
  Data for examples: a task for the keyword \<open>A\<close> over the given days, a post with the
  given identity, and an endpoint that answers the task starting on day 738886 (the first
  of January 2024) with two pages and every other task with one; the identity 2 comes on
  both pages of the first task and the identity 3 in both tasks.
\<close>

definition day_task :: "int \<Rightarrow> int \<Rightarrow> SearchTask" where
  "day_task a b =
     \<lparr>keyword = [65], date_start = a, date_end = b, task_region = None,
      task_weibo_type = 0, task_contain_type = 0\<rparr>"

definition post :: "nat \<Rightarrow> PostRecord" where
  "post k =
     \<lparr>content_id = [k], author = [], timestamp = 0, post_text = [], media_links = [],
      raw_type_flags = 0\<rparr>"

definition two_day_endpoint :: "SearchTask \<Rightarrow> PostRecord list list" where
  "two_day_endpoint t =
     (if date_start t = 738886 then [ [post 1, post 2], [post 2, post 3] ]
      else [ [post 3, post 4] ])"

section \<open>Notions the stated properties use\<close>

text \<open>
  The settings a command line may write: a flag that is present stands for its setting,
  \<open>--keywords\<close> and \<open>--keyword-file\<close> both for \<open>KEYWORD_LIST\<close>, \<open>--output-dir\<close> for
  the two store directories.
\<close>

definition flag_keys :: "'f args \<Rightarrow> string set" where
  "flag_keys a =
     {k. k = ''KEYWORD_LIST'' \<and> (keywords_arg a \<noteq> None \<or> keyword_file a \<noteq> None) \<or>
         k = ''START_DATE'' \<and> start_date a \<noteq> None \<or>
         k = ''END_DATE'' \<and> end_date a \<noteq> None \<or>
         k = ''WEIBO_TYPE'' \<and> weibo_type a \<noteq> None \<or>
         k = ''CONTAIN_TYPE'' \<and> contain_type a \<noteq> None \<or>
         k = ''REGION'' \<and> region a \<noteq> None \<or>
         k = ''LIMIT_RESULT'' \<and> limit a \<noteq> None \<or>
         k = ''DOWNLOAD_DELAY'' \<and> delay a \<noteq> None \<or>
         (k = ''IMAGES_STORE'' \<or> k = ''FILES_STORE'') \<and> output_dir a \<noteq> None}"

text \<open>
  A string that is a calendar date written as year, month and day with hyphens between:
  the year four decimal digits; the month \<open>1\<close> to \<open>12\<close>, below ten with or without a
  leading zero; the day likewise, or with a leading space, and one the month has.
\<close>

definition month_text :: "pystr \<Rightarrow> bool" where
  "month_text m \<longleftrightarrow>
     (\<exists>c. 49 \<le> c \<and> c \<le> 57 \<and> (m = [c] \<or> m = [48, c])) \<or>
     (\<exists>c. 48 \<le> c \<and> c \<le> 50 \<and> m = [49, c])"

definition day_text :: "pystr \<Rightarrow> bool" where
  "day_text d \<longleftrightarrow>
     (\<exists>c. 49 \<le> c \<and> c \<le> 57 \<and> (d = [c] \<or> d = [48, c] \<or> d = [32, c])) \<or>
     (\<exists>b c. 49 \<le> b \<and> b \<le> 50 \<and> isdecimal c \<and> d = [b, c]) \<or>
     (\<exists>c. 48 \<le> c \<and> c \<le> 49 \<and> d = [51, c])"

definition number :: "pystr \<Rightarrow> nat" where
  "number t = foldl (\<lambda>n c. 10 * n + digit_of c) 0 (int_strip t)"

definition calendar_date :: "pystr \<Rightarrow> bool" where
  "calendar_date s \<longleftrightarrow>
     (\<exists>Y m d. s = Y @ hyphen # m @ hyphen # d \<and>
        length Y = 4 \<and> list_all isdecimal Y \<and> month_text m \<and> day_text d \<and>
        1 \<le> number Y \<and> 1 \<le> number d \<and> number d \<le> days_in_month (number Y) (number m))"

section \<open>Properties\<close>

subsection \<open>Splitting, joining and stripping\<close>

lemma split_not_Nil: "split sep s \<noteq> []"
  by (induction s) (auto split: list.splits)

lemma join_Cons: "ps \<noteq> [] \<Longrightarrow> join sep (p # ps) = p @ sep # join sep ps"
  by (cases ps) auto

lemma join_split: "join sep (split sep s) = s"
proof (induction s)
  case Nil
  show ?case by simp
next
  case (Cons c cs)
  show ?case
  proof (cases "c = sep")
    case True
    with Cons show ?thesis by (simp add: join_Cons split_not_Nil)
  next
    case False
    obtain p ps where ps: "split sep cs = p # ps"
      using split_not_Nil [of sep cs] by (cases "split sep cs") auto
    with Cons False show ?thesis by (cases ps) auto
  qed
qed

lemma split_no_sep: "sep \<notin> set (concat (split sep s))"
  by (induction s) (auto split: list.splits)

lemma rev_dropWhile_takeWhile:
  "xs = rev (dropWhile P (rev xs)) @ rev (takeWhile P (rev xs))"
proof -
  have "rev (rev xs) = rev (takeWhile P (rev xs) @ dropWhile P (rev xs))"
    by (simp only: takeWhile_dropWhile_id)
  then show ?thesis by (simp only: rev_rev_ident rev_append)
qed

lemma strip_decomp:
  "\<exists>l r. t = l @ strip t @ r \<and> list_all isspace l \<and> list_all isspace r"
proof -
  let ?u = "dropWhile isspace t"
  have a: "t = takeWhile isspace t @ ?u" by simp
  have b: "rev ?u = takeWhile isspace (rev ?u) @ dropWhile isspace (rev ?u)" by simp
  have c: "?u = strip t @ rev (takeWhile isspace (rev ?u))"
    unfolding strip_def by (rule rev_dropWhile_takeWhile)
  have "t = takeWhile isspace t @ strip t @ rev (takeWhile isspace (rev ?u))"
    using a c by metis
  moreover have "list_all isspace (takeWhile isspace t)"
    by (simp add: list_all_iff) (meson set_takeWhileD)
  moreover have "list_all isspace (rev (takeWhile isspace (rev ?u)))"
    by (simp add: list_all_iff) (meson set_takeWhileD)
  ultimately show ?thesis by blast
qed

lemma strip_ends:
  "strip t \<noteq> [] \<Longrightarrow> \<not> isspace (hd (strip t)) \<and> \<not> isspace (last (strip t))"
proof -
  assume ne: "strip t \<noteq> []"
  let ?u = "dropWhile isspace t"
  let ?v = "dropWhile isspace (rev ?u)"
  have v: "?v \<noteq> []" using ne by (simp add: strip_def)
  then have hv: "\<not> isspace (hd ?v)" by (metis hd_dropWhile)
  have u: "?u \<noteq> []"
  proof
    assume h: "?u = []"
    have "?v = []" unfolding h by simp
    with v show False by simp
  qed
  then have hu: "\<not> isspace (hd ?u)" by (metis hd_dropWhile)
  have "last (strip t) = hd ?v" using v by (simp add: strip_def last_rev)
  moreover have "hd (strip t) = hd ?u"
  proof -
    have "strip t = rev ?v" by (simp add: strip_def)
    then have "hd (strip t) = last ?v" using v by (simp add: hd_rev)
    also have "\<dots> = last (rev ?u)"
      using v by (metis last_appendR takeWhile_dropWhile_id)
    also have "\<dots> = hd ?u" using u by (simp add: last_rev)
    finally show ?thesis .
  qed
  ultimately show ?thesis using hu hv by simp
qed

subsection \<open>The settings after \<open>update_settings_from_args\<close>\<close>

lemma run_blocks_frame:
  "(\<And>b s. b \<in> set bs \<Longrightarrow> fst (b s) k = s k) \<Longrightarrow> fst (run_blocks bs st) k = st k"
proof (induction bs arbitrary: st)
  case Nil
  show ?case by simp
next
  case (Cons b bs)
  have 1: "fst (b st) k = st k" using Cons.prems by simp
  have 2: "fst (run_blocks bs (fst (b st))) k = fst (b st) k"
    using Cons.IH Cons.prems by simp
  show ?case using 1 2 by (simp split: prod.splits) (metis fst_conv)
qed

lemma fst_run_blocks_Cons:
  "fst (run_blocks (b # bs) st) = fst (run_blocks bs (fst (b st)))"
  by (simp split: prod.splits)

lemma fst_run_blocks_Nil: "fst (run_blocks [] st) = st"
  by simp

lemmas update_defs =
  update_keywords_def update_start_date_def update_end_date_def update_weibo_type_def
  update_contain_type_def update_region_def update_limit_def update_delay_def
  update_output_dir_def update_log_level_def

lemma frame_keywords: "k \<noteq> ''KEYWORD_LIST'' \<Longrightarrow> fst (update_keywords a st) k = st k"
  by (simp add: update_keywords_def settings_set_def split: option.splits)

lemma keep_keywords:
  "keywords_arg a = None \<Longrightarrow> keyword_file a = None \<Longrightarrow> fst (update_keywords a st) = st"
  by (simp add: update_keywords_def)

lemma frame_start_date: "k \<noteq> ''START_DATE'' \<or> start_date a = None \<Longrightarrow> fst (update_start_date a st) k = st k"
  by (auto simp add: update_start_date_def settings_set_def split: option.splits)

lemma frame_end_date: "k \<noteq> ''END_DATE'' \<or> end_date a = None \<Longrightarrow> fst (update_end_date a st) k = st k"
  by (auto simp add: update_end_date_def settings_set_def split: option.splits)

lemma frame_weibo_type: "k \<noteq> ''WEIBO_TYPE'' \<or> weibo_type a = None \<Longrightarrow> fst (update_weibo_type a st) k = st k"
  by (auto simp add: update_weibo_type_def settings_set_def split: option.splits)

lemma frame_contain_type: "k \<noteq> ''CONTAIN_TYPE'' \<or> contain_type a = None \<Longrightarrow> fst (update_contain_type a st) k = st k"
  by (auto simp add: update_contain_type_def settings_set_def split: option.splits)

lemma frame_region: "k \<noteq> ''REGION'' \<or> region a = None \<Longrightarrow> fst (update_region a st) k = st k"
  by (auto simp add: update_region_def settings_set_def split: option.splits)

lemma frame_limit: "k \<noteq> ''LIMIT_RESULT'' \<or> limit a = None \<Longrightarrow> fst (update_limit a st) k = st k"
  by (auto simp add: update_limit_def settings_set_def split: option.splits)

lemma frame_delay: "k \<noteq> ''DOWNLOAD_DELAY'' \<or> delay a = None \<Longrightarrow> fst (update_delay a st) k = st k"
  by (auto simp add: update_delay_def settings_set_def split: option.splits)

lemma frame_output_dir:
  "(k \<noteq> ''IMAGES_STORE'' \<and> k \<noteq> ''FILES_STORE'') \<or> output_dir a = None \<Longrightarrow>
   fst (update_output_dir a st) k = st k"
  by (auto simp add: update_output_dir_def settings_set_def split: option.splits)

lemma frame_log_level: "k \<noteq> ''LOG_LEVEL'' \<Longrightarrow> fst (update_log_level a st) k = st k"
  by (simp add: update_log_level_def settings_set_def)

lemma frame_keywords_or:
  "k \<noteq> ''KEYWORD_LIST'' \<or> (keywords_arg a = None \<and> keyword_file a = None) \<Longrightarrow> fst (update_keywords a st) k = st k"
  using frame_keywords keep_keywords by metis

lemma update_frame:
  assumes "k \<notin> flag_keys a" and "k \<noteq> ''LOG_LEVEL''"
  shows "fst (update_settings_from_args st a) k = st k"
  unfolding update_settings_from_args_def
proof (rule run_blocks_frame)
  fix b s
  assume "b \<in> set [update_keywords a, update_start_date a, update_end_date a, update_weibo_type a,
        update_contain_type a, update_region a, update_limit a, update_delay a,
        update_output_dir a, update_log_level a]"
  then consider "b = update_keywords a" | "b = update_start_date a" | "b = update_end_date a"
    | "b = update_weibo_type a" | "b = update_contain_type a" | "b = update_region a"
    | "b = update_limit a" | "b = update_delay a" | "b = update_output_dir a"
    | "b = update_log_level a" by auto
  then show "fst (b s) k = s k"
  proof cases
    case 1
    have "k \<noteq> ''KEYWORD_LIST'' \<or> (keywords_arg a = None \<and> keyword_file a = None)"
      using assms(1) by (auto simp: flag_keys_def)
    then show ?thesis unfolding 1 by (rule frame_keywords_or)
  next
    case 2
    have "k \<noteq> ''START_DATE'' \<or> start_date a = None"
      using assms(1) by (auto simp: flag_keys_def)
    then show ?thesis unfolding 2 by (rule frame_start_date)
  next
    case 3
    have "k \<noteq> ''END_DATE'' \<or> end_date a = None"
      using assms(1) by (auto simp: flag_keys_def)
    then show ?thesis unfolding 3 by (rule frame_end_date)
  next
    case 4
    have "k \<noteq> ''WEIBO_TYPE'' \<or> weibo_type a = None"
      using assms(1) by (auto simp: flag_keys_def)
    then show ?thesis unfolding 4 by (rule frame_weibo_type)
  next
    case 5
    have "k \<noteq> ''CONTAIN_TYPE'' \<or> contain_type a = None"
      using assms(1) by (auto simp: flag_keys_def)
    then show ?thesis unfolding 5 by (rule frame_contain_type)
  next
    case 6
    have "k \<noteq> ''REGION'' \<or> region a = None"
      using assms(1) by (auto simp: flag_keys_def)
    then show ?thesis unfolding 6 by (rule frame_region)
  next
    case 7
    have "k \<noteq> ''LIMIT_RESULT'' \<or> limit a = None"
      using assms(1) by (auto simp: flag_keys_def)
    then show ?thesis unfolding 7 by (rule frame_limit)
  next
    case 8
    have "k \<noteq> ''DOWNLOAD_DELAY'' \<or> delay a = None"
      using assms(1) by (auto simp: flag_keys_def)
    then show ?thesis unfolding 8 by (rule frame_delay)
  next
    case 9
    have "(k \<noteq> ''IMAGES_STORE'' \<and> k \<noteq> ''FILES_STORE'') \<or> output_dir a = None"
      using assms(1) by (auto simp: flag_keys_def)
    then show ?thesis unfolding 9 by (rule frame_output_dir)
  next
    case 10
    show ?thesis unfolding 10 using assms(2) by (rule frame_log_level)
  qed
qed

lemma keyword_list_after_update:
  assumes "keywords_arg a = Some s" and "s \<noteq> []"
  shows "fst (update_settings_from_args st a) ''KEYWORD_LIST'' = Some (VList (split_strip s))"
proof -
  have "fst (update_keywords a st) ''KEYWORD_LIST'' = Some (VList (split_strip s))"
    using assms by (simp add: update_keywords_def settings_set_def)
  then show ?thesis
    by (simp add: update_settings_from_args_def fst_run_blocks_Cons frame_start_date
        frame_end_date frame_weibo_type frame_contain_type frame_region frame_limit
        frame_delay frame_output_dir frame_log_level fst_run_blocks_Nil del: run_blocks.simps)
qed

lemma region_after_update:
  assumes "region a = Some s" and "s \<noteq> []"
  shows "fst (update_settings_from_args st a) ''REGION'' = Some (VList (split_strip s))"
proof -
  have "fst (update_region a st') ''REGION'' = Some (VList (split_strip s))" for st' :: "'a settings"
    using assms by (simp add: update_region_def settings_set_def)
  then show ?thesis
    by (simp add: update_settings_from_args_def fst_run_blocks_Cons frame_limit
        frame_delay frame_output_dir frame_log_level fst_run_blocks_Nil del: run_blocks.simps)
qed

lemma log_level_after_update:
  "fst (update_settings_from_args st a) ''LOG_LEVEL'' = Some (VStr (log_level a))"
  by (simp add: update_settings_from_args_def fst_run_blocks_Cons fst_run_blocks_Nil
      update_log_level_def settings_set_def del: run_blocks.simps)

lemma split_strip_alt:
  "split_strip s = filter (\<lambda>t. t \<noteq> []) (map strip (split comma s))"
  by (simp add: split_strip_def filter_map comp_def)

text \<open>
  C9. For a non-empty \<open>--keywords\<close> string the setting \<open>KEYWORD_LIST\<close> becomes the list of
  the pieces between the commas (joined with commas they give the string back, and none
  holds a comma), each stripped of surrounding whitespace, the empty ones left out, in
  the order of the string; a non-empty \<open>--region\<close> string gives \<open>REGION\<close> in the same way.
\<close>

theorem update_settings_token_lists:
  "join comma (split comma s) = s \<and> comma \<notin> set (concat (split comma s)) \<and>
   (keywords_arg a = Some s \<and> s \<noteq> [] \<longrightarrow>
      fst (update_settings_from_args st a) ''KEYWORD_LIST'' =
        Some (VList (filter (\<lambda>t. t \<noteq> []) (map strip (split comma s))))) \<and>
   (region a = Some s \<and> s \<noteq> [] \<longrightarrow>
      fst (update_settings_from_args st a) ''REGION'' =
        Some (VList (filter (\<lambda>t. t \<noteq> []) (map strip (split comma s)))))"
  using join_split [of comma s] split_no_sep [of comma s]
    keyword_list_after_update [of a s st] region_after_update [of a s st]
  by (simp add: split_strip_alt)

text \<open>
  The keywords of the usage text, with a space after the comma, an ideographic space
  before the second keyword and an empty piece at the end.
\<close>

theorem update_settings_token_lists_witness:
  "keywords_arg (no_flags\<lparr>keywords_arg := Some [36842, 20029, 28909, 24052, 44, 32, 12288, 26472, 24130, 44],
       region := Some [36842, 20029, 28909, 24052, 44, 32, 12288, 26472, 24130, 44]\<rparr> :: real args) =
     Some [36842, 20029, 28909, 24052, 44, 32, 12288, 26472, 24130, 44] \<and>
   region (no_flags\<lparr>keywords_arg := Some [36842, 20029, 28909, 24052, 44, 32, 12288, 26472, 24130, 44],
       region := Some [36842, 20029, 28909, 24052, 44, 32, 12288, 26472, 24130, 44]\<rparr> :: real args) =
     Some [36842, 20029, 28909, 24052, 44, 32, 12288, 26472, 24130, 44] \<and>
   [36842, 20029, 28909, 24052, 44, 32, 12288, 26472, 24130, 44] \<noteq> ([] :: pystr) \<and>
   fst (update_settings_from_args Map.empty
     (no_flags\<lparr>keywords_arg := Some [36842, 20029, 28909, 24052, 44, 32, 12288, 26472, 24130, 44],
       region := Some [36842, 20029, 28909, 24052, 44, 32, 12288, 26472, 24130, 44]\<rparr> :: real args))
     ''KEYWORD_LIST'' = Some (VList [ [36842, 20029, 28909, 24052], [26472, 24130] ]) \<and>
   fst (update_settings_from_args Map.empty
     (no_flags\<lparr>keywords_arg := Some [36842, 20029, 28909, 24052, 44, 32, 12288, 26472, 24130, 44],
       region := Some [36842, 20029, 28909, 24052, 44, 32, 12288, 26472, 24130, 44]\<rparr> :: real args))
     ''REGION'' = Some (VList [ [36842, 20029, 28909, 24052], [26472, 24130] ])"
  using update_settings_token_lists
    [of "[36842, 20029, 28909, 24052, 44, 32, 12288, 26472, 24130, 44]"
        "no_flags\<lparr>keywords_arg := Some [36842, 20029, 28909, 24052, 44, 32, 12288, 26472, 24130, 44],
           region := Some [36842, 20029, 28909, 24052, 44, 32, 12288, 26472, 24130, 44]\<rparr> :: real args"
        Map.empty]
  by (simp add: no_flags_def comma_def strip_def isspace_def)

text \<open>
  C10. \<open>LOG_LEVEL\<close> is set on every call, and a setting that is neither \<open>LOG_LEVEL\<close> nor
  the setting of a flag that is present keeps the value it had.
\<close>

theorem update_settings_frame:
  "fst (update_settings_from_args st a) ''LOG_LEVEL'' = Some (VStr (log_level a)) \<and>
   (\<forall>k. k \<notin> flag_keys a \<and> k \<noteq> ''LOG_LEVEL'' \<longrightarrow>
      fst (update_settings_from_args st a) k = st k)"
  using log_level_after_update [of st a] update_frame [of _ a st] by blast

theorem update_settings_frame_witness:
  "''KEYWORD_LIST'' \<notin> flag_keys (no_flags\<lparr>limit := Some 5\<rparr> :: real args) \<and>
   ''KEYWORD_LIST'' \<noteq> ''LOG_LEVEL'' \<and>
   fst (update_settings_from_args [''KEYWORD_LIST'' \<mapsto> VList [ [26472, 24130] ] ]
         (no_flags\<lparr>limit := Some 5\<rparr> :: real args)) ''KEYWORD_LIST'' =
     Some (VList [ [26472, 24130] ]) \<and>
   fst (update_settings_from_args [''KEYWORD_LIST'' \<mapsto> VList [ [26472, 24130] ] ]
         (no_flags\<lparr>limit := Some 5\<rparr> :: real args)) ''LOG_LEVEL'' =
     Some (VStr (ascii ''ERROR''))"
  using update_settings_frame
    [of "[''KEYWORD_LIST'' \<mapsto> VList [ [26472, 24130] ] ]" "no_flags\<lparr>limit := Some 5\<rparr> :: real args"]
  by (simp add: flag_keys_def no_flags_def)

subsection \<open>\<open>strptime\<close> and \<open>validate_date\<close>\<close>

lemma ascii_digit_value: "48 \<le> c \<Longrightarrow> c \<le> 57 \<Longrightarrow> digit_value c = Some (c - 48)"
  by (simp add: digit_value_def digit_starts_def)

lemma ascii_isdecimal: "48 \<le> c \<Longrightarrow> c \<le> 57 \<Longrightarrow> isdecimal c"
  by (simp add: isdecimal_def ascii_digit_value)

lemma ascii_digit_of: "48 \<le> c \<Longrightarrow> c \<le> 57 \<Longrightarrow> digit_of c = c - 48"
  by (simp add: digit_of_def ascii_digit_value)

lemma spaces_not_decimal:
  "list_all (\<lambda>c. digit_value c = None)
     [9, 10, 11, 12, 13, 28, 29, 30, 31, 32, 133, 160, 5760,
      8192, 8193, 8194, 8195, 8196, 8197, 8198, 8199, 8200, 8201, 8202,
      8232, 8233, 8239, 8287, 12288]"
  by (simp add: digit_value_def digit_starts_def)

lemma space_not_decimal: "isspace c \<Longrightarrow> digit_value c = None"
  using spaces_not_decimal unfolding isspace_def list_all_iff by blast

lemma decimal_not_space: "isdecimal c \<Longrightarrow> \<not> isspace c"
  using space_not_decimal by (auto simp: isdecimal_def)

lemma find_Some_mem: "find P xs = Some x \<Longrightarrow> P x"
  by (induction xs) (auto split: if_splits)

lemma digit_of_le_9: "digit_of c \<le> 9"
proof (cases "find (\<lambda>s. s \<le> c \<and> c < s + 10) digit_starts")
  case None
  then show ?thesis by (simp add: digit_of_def digit_value_def)
next
  case (Some s)
  then have "s \<le> c \<and> c < s + 10" by (rule find_Some_mem)
  then have "c - s \<le> 9" by arith
  with Some show ?thesis by (simp add: digit_of_def digit_value_def)
qed

lemma py_int_number:
  "py_int t = (if int_strip t \<noteq> [] \<and> list_all isdecimal (int_strip t) then Inr (number t)
               else Inl ValueError)"
  by (simp add: py_int_def number_def Let_def)

lemma decimal_not_int_space: "isdecimal c \<Longrightarrow> \<not> int_space c"
  using decimal_not_space by (simp add: int_space_def)

lemma int_strip_Cons_id:
  assumes "\<not> int_space c" and "\<not> int_space (last (c # t))"
  shows "int_strip (c # t) = c # t"
proof -
  have "rev (c # t) \<noteq> []" by simp
  moreover have "hd (rev (c # t)) = last (c # t)" by (rule hd_rev)
  ultimately have "dropWhile int_space (rev (c # t)) = rev (c # t)"
    using assms(2) by (cases "rev (c # t)") auto
  moreover have "dropWhile int_space (c # t) = c # t" using assms(1) by simp
  ultimately show ?thesis unfolding int_strip_def by (simp only: rev_rev_ident)
qed

lemma mem_re_class:
  "(x, r) \<in> set (re_class P s) \<longleftrightarrow> (\<exists>c. P c \<and> x = [c] \<and> s = c # r)"
  by (auto simp: re_class_def split: list.splits)

lemma mem_re_chr: "(x, r) \<in> set (re_chr k s) \<longleftrightarrow> x = [k] \<and> s = k # r"
  by (auto simp: re_chr_def mem_re_class)

lemma mem_re_range:
  "(x, r) \<in> set (re_range lo hi s) \<longleftrightarrow> (\<exists>c. lo \<le> c \<and> c \<le> hi \<and> x = [c] \<and> s = c # r)"
  by (auto simp: re_range_def mem_re_class)

lemma mem_re_seq:
  "(x, r) \<in> set (re_seq p q s) \<longleftrightarrow>
     (\<exists>x1 x2 r1. (x1, r1) \<in> set (p s) \<and> (x2, r) \<in> set (q r1) \<and> x = x1 @ x2)"
  by (force simp: re_seq_def)

lemma mem_re_alt:
  "(x, r) \<in> set (re_alt p q s) \<longleftrightarrow> (x, r) \<in> set (p s) \<or> (x, r) \<in> set (q s)"
  by (auto simp: re_alt_def)

lemmas mem_re = mem_re_class mem_re_chr mem_re_range mem_re_seq mem_re_alt

lemma mem_re_Y:
  "(x, r) \<in> set (re_Y s) \<Longrightarrow> s = x @ r \<and> length x = 4 \<and> list_all isdecimal x"
  by (auto simp: re_Y_def mem_re)

lemma mem_re_m: "(x, r) \<in> set (re_m s) \<Longrightarrow> s = x @ r \<and> month_text x"
  by (auto simp: re_m_def mem_re month_text_def)

lemma mem_re_d: "(x, r) \<in> set (re_d s) \<Longrightarrow> s = x @ r \<and> day_text x"
  by (auto simp: re_d_def mem_re day_text_def)

lemma mem_format_regex:
  assumes "((Y, m, d), r) \<in> set (format_regex s)"
  shows "s = Y @ hyphen # m @ hyphen # d @ r \<and> length Y = 4 \<and> list_all isdecimal Y \<and>
         month_text m \<and> day_text d"
proof -
  from assms obtain r1 h1 r2 r3 h2 r4 where
    Y: "(Y, r1) \<in> set (re_Y s)" and h1: "(h1, r2) \<in> set (re_chr hyphen r1)" and
    m: "(m, r3) \<in> set (re_m r2)" and h2: "(h2, r4) \<in> set (re_chr hyphen r3)" and
    d: "(d, r) \<in> set (re_d r4)"
    by (auto simp: format_regex_def)
  show ?thesis
    using mem_re_Y [OF Y] mem_re_m [OF m] mem_re_d [OF d] h1 h2 by (simp add: mem_re_chr)
qed

lemma re_Y_digits:
  "list_all isdecimal [a, b, c, e] \<Longrightarrow> re_Y (a # b # c # e # r) = [([a, b, c, e], r)]"
  by (simp add: re_Y_def re_seq_def re_class_def)

lemma re_chr_same: "re_chr k (k # r) = [([k], r)]"
  by (simp add: re_chr_def re_class_def)

lemma re_m_head:
  assumes "month_text m"
  shows "\<exists>ms. re_m (m @ hyphen # r) = (m, hyphen # r) # ms"
proof -
  from assms consider c where "49 \<le> c" "c \<le> 57" "m = [c]"
    | c where "49 \<le> c" "c \<le> 57" "m = [48, c]"
    | c where "48 \<le> c" "c \<le> 50" "m = [49, c]"
    unfolding month_text_def by blast
  then show ?thesis
    by cases
      (simp_all add: re_m_def re_alt_def re_seq_def re_chr_def re_range_def re_class_def
        hyphen_def)
qed

lemma re_d_head:
  assumes "day_text d"
  shows "\<exists>ds. re_d d = (d, []) # ds"
proof -
  from assms consider c where "49 \<le> c" "c \<le> 57" "d = [c]"
    | c where "49 \<le> c" "c \<le> 57" "d = [48, c]"
    | c where "49 \<le> c" "c \<le> 57" "d = [32, c]"
    | b c where "49 \<le> b" "b \<le> 50" "isdecimal c" "d = [b, c]"
    | c where "48 \<le> c" "c \<le> 49" "d = [51, c]"
    unfolding day_text_def by blast
  then show ?thesis
    by cases
      (simp_all add: re_d_def re_alt_def re_seq_def re_chr_def re_range_def re_class_def)
qed

lemma length_4:
  "length Y = 4 \<Longrightarrow> \<exists>a b c e. Y = [a, b, c, e]"
  by (auto simp: eval_nat_numeral length_Suc_conv)

lemma format_regex_head:
  assumes "length Y = 4" and "list_all isdecimal Y" and "month_text m" and "day_text d"
  shows "\<exists>rest. format_regex (Y @ hyphen # m @ hyphen # d) = ((Y, m, d), []) # rest"
proof -
  obtain a b c e where Y: "Y = [a, b, c, e]" using length_4 [OF assms(1)] by blast
  obtain ms where ms: "re_m (m @ hyphen # d) = (m, hyphen # d) # ms"
    using re_m_head [OF assms(3)] by blast
  obtain ds where ds: "re_d d = (d, []) # ds"
    using re_d_head [OF assms(4)] by blast
  have "re_Y (Y @ hyphen # m @ hyphen # d) = [(Y, hyphen # m @ hyphen # d)]"
    using assms(2) re_Y_digits [of a b c e] unfolding Y by simp
  then show ?thesis
    by (simp add: format_regex_def re_chr_same ms ds)
qed

lemma int_strip_digits:
  assumes "t \<noteq> []" and "list_all isdecimal t"
  shows "int_strip t = t"
proof -
  obtain c u where t: "t = c # u" using assms(1) by (cases t) auto
  have "isdecimal c" using assms(2) t by simp
  moreover have "isdecimal (last (c # u))"
    using assms t by (metis last_in_set list_all_iff)
  ultimately show ?thesis unfolding t
    by (intro int_strip_Cons_id decimal_not_int_space)
qed

lemma py_int_digits:
  "t \<noteq> [] \<Longrightarrow> list_all isdecimal t \<Longrightarrow> py_int t = Inr (number t)"
  by (simp add: py_int_number int_strip_digits)

lemma number_digits:
  "t \<noteq> [] \<Longrightarrow> list_all isdecimal t \<Longrightarrow>
   number t = foldl (\<lambda>n c. 10 * n + digit_of c) 0 t"
  by (simp add: number_def int_strip_digits)

lemma year_int:
  assumes "length Y = 4" and "list_all isdecimal Y"
  shows "py_int Y = Inr (number Y) \<and> number Y \<le> 9999"
proof -
  obtain a b c e where Y: "Y = [a, b, c, e]" using length_4 [OF assms(1)] by blast
  have ne: "Y \<noteq> []" using Y by simp
  have "number Y = 10 * (10 * (10 * digit_of a + digit_of b) + digit_of c) + digit_of e"
    using number_digits [OF ne assms(2)] by (simp add: Y)
  then have "number Y \<le> 9999"
    using digit_of_le_9 [of a] digit_of_le_9 [of b] digit_of_le_9 [of c] digit_of_le_9 [of e]
    by arith
  then show ?thesis using py_int_digits [OF ne assms(2)] by simp
qed

lemma month_int:
  assumes "month_text m"
  shows "py_int m = Inr (number m) \<and> 1 \<le> number m \<and> number m \<le> 12"
proof -
  from assms consider c where "49 \<le> c" "c \<le> 57" "m = [c]"
    | c where "49 \<le> c" "c \<le> 57" "m = [48, c]"
    | c where "48 \<le> c" "c \<le> 50" "m = [49, c]"
    unfolding month_text_def by blast
  then show ?thesis
  proof cases
    case 1
    then have d: "list_all isdecimal m" by (simp add: ascii_isdecimal)
    have ne: "m \<noteq> []" using 1 by simp
    show ?thesis
      using py_int_digits [OF ne d] number_digits [OF ne d] 1 by (simp add: ascii_digit_of; arith)
  next
    case 2
    then have d: "list_all isdecimal m" by (simp add: ascii_isdecimal)
    have ne: "m \<noteq> []" using 2 by simp
    show ?thesis
      using py_int_digits [OF ne d] number_digits [OF ne d] 2 by (simp add: ascii_digit_of; arith)
  next
    case 3
    then have d: "list_all isdecimal m" by (simp add: ascii_isdecimal)
    have ne: "m \<noteq> []" using 3 by simp
    show ?thesis
      using py_int_digits [OF ne d] number_digits [OF ne d] 3 by (simp add: ascii_digit_of; arith)
  qed
qed

lemma int_strip_space_digit: "\<not> int_space c \<Longrightarrow> int_strip [32, c] = [c]"
  by (simp add: int_strip_def int_space_def isspace_def)

lemma day_int:
  assumes "day_text d"
  shows "py_int d = Inr (number d)"
proof -
  from assms consider c where "49 \<le> c" "c \<le> 57" "d = [32, c]"
    | "d \<noteq> []" "list_all isdecimal d"
    unfolding day_text_def by (auto simp: ascii_isdecimal)
  then show ?thesis
  proof cases
    case 1
    then have "isdecimal c" by (simp add: ascii_isdecimal)
    then have "int_strip d = [c]"
      using 1 by (simp add: int_strip_space_digit decimal_not_int_space)
    then show ?thesis using \<open>isdecimal c\<close> by (simp add: py_int_number)
  next
    case 2
    then show ?thesis by (rule py_int_digits)
  qed
qed

lemma py_int_error: "py_int t = Inl e \<Longrightarrow> e = ValueError"
  by (simp add: py_int_number split: if_splits)

lemma py_int_value: "py_int t = Inr n \<Longrightarrow> n = number t"
  by (simp add: py_int_number split: if_splits)

lemma datetime_error: "datetime y m d = Inl e \<Longrightarrow> e = ValueError"
  by (simp add: datetime_def split: if_splits)

lemma strptime_error: "strptime s = Inl e \<Longrightarrow> e = ValueError"
  unfolding strptime_def
  by (auto split: option.splits prod.splits if_splits sum.splits
      dest: py_int_error datetime_error)

lemma strptime_of_calendar_date:
  assumes "length Y = 4" and "list_all isdecimal Y" and "month_text m" and "day_text d"
    and "1 \<le> number Y" and "1 \<le> number d"
    and "number d \<le> days_in_month (number Y) (number m)"
  shows "strptime (Y @ hyphen # m @ hyphen # d) =
           Inr \<lparr>year = number Y, month = number m, day = number d\<rparr>"
proof -
  obtain rest where "format_regex (Y @ hyphen # m @ hyphen # d) = ((Y, m, d), []) # rest"
    using format_regex_head [OF assms(1-4)] by blast
  then have "format_regex_match (Y @ hyphen # m @ hyphen # d) = Some ((Y, m, d), [])"
    by (simp add: format_regex_match_def)
  then show ?thesis
    using year_int [OF assms(1,2)] month_int [OF assms(3)] day_int [OF assms(4)] assms(5-7)
    by (simp add: strptime_def datetime_def)
qed

lemma calendar_date_of_strptime:
  assumes "strptime s = Inr dt"
  shows "calendar_date s"
proof -
  from assms obtain Y m d where
    f: "format_regex_match s = Some ((Y, m, d), [])" and
    r: "(case py_int Y of Inl e \<Rightarrow> Inl e
         | Inr y \<Rightarrow> (case py_int m of Inl e \<Rightarrow> Inl e
             | Inr mo \<Rightarrow> (case py_int d of Inl e \<Rightarrow> Inl e
                 | Inr dd \<Rightarrow> datetime y mo dd))) = Inr dt"
    unfolding strptime_def by (auto split: option.splits prod.splits if_splits)
  from f have "((Y, m, d), []) \<in> set (format_regex s)"
    by (auto simp: format_regex_match_def split: list.splits)
  then have shape: "s = Y @ hyphen # m @ hyphen # d" "length Y = 4" "list_all isdecimal Y"
    "month_text m" "day_text d"
    using mem_format_regex [of Y m d "[]" s] by simp_all
  from r obtain y mo dd where "py_int Y = Inr y" "py_int m = Inr mo" "py_int d = Inr dd"
    "datetime y mo dd = Inr dt"
    by (auto split: sum.splits)
  then have "datetime (number Y) (number m) (number d) = Inr dt"
    using py_int_value by metis
  then have "1 \<le> number Y \<and> 1 \<le> number d \<and>
      number d \<le> days_in_month (number Y) (number m)"
    by (simp add: datetime_def split: if_splits)
  with shape show ?thesis unfolding calendar_date_def by blast
qed

lemma strptime_iff_calendar_date: "(\<exists>dt. strptime s = Inr dt) \<longleftrightarrow> calendar_date s"
proof
  assume "\<exists>dt. strptime s = Inr dt"
  then show "calendar_date s" using calendar_date_of_strptime by blast
next
  assume "calendar_date s"
  then show "\<exists>dt. strptime s = Inr dt"
    unfolding calendar_date_def using strptime_of_calendar_date by blast
qed

lemma validate_date_calendar: "validate_date s = Inr (calendar_date s)"
proof (cases "strptime s")
  case (Inl e)
  then have "e = ValueError" by (rule strptime_error)
  moreover have "\<not> calendar_date s"
    using Inl strptime_iff_calendar_date [of s] by auto
  ultimately show ?thesis using Inl by (simp add: validate_date_def)
next
  case (Inr dt)
  then have "calendar_date s" by (rule calendar_date_of_strptime)
  then show ?thesis using Inr by (simp add: validate_date_def)
qed

text \<open>
  C7. \<open>validate_date\<close> raises for no string: it returns \<open>True\<close> when \<open>strptime\<close> parses the
  string under \<open>%Y-%m-%d\<close> and \<open>False\<close> when it does not; and the strings that parse are
  the calendar dates written year-month-day.
\<close>

theorem validate_date_iff_parses:
  "validate_date s = Inr (\<exists>dt. strptime s = Inr dt) \<and>
   ((\<exists>dt. strptime s = Inr dt) \<longleftrightarrow> calendar_date s)"
  using validate_date_calendar [of s] strptime_iff_calendar_date [of s] by simp

subsection \<open>\<open>validate_arguments\<close> and the start of \<open>main\<close>\<close>

lemma and_then_ret: "and_then (ret x) f = f x"
  by (simp add: and_then_def ret_def split: prod.splits)

lemma and_then_throw: "and_then (throw e) f = throw e"
  by (simp add: and_then_def throw_def)

lemma and_then_lift_Inr: "and_then (lift (Inr x)) f = f x"
  by (simp add: and_then_def lift_def split: prod.splits)

lemma and_then_lift_Inl: "and_then (lift (Inl e)) f = throw e"
  by (simp add: and_then_def lift_def throw_def)

lemma and_then_Inr: "and_then (tr, Inr x) f = (tr @ fst (f x), snd (f x))"
  by (simp add: and_then_def split: prod.splits)

lemma and_then_Inl: "and_then (tr, Inl e) f = (tr, Inl e)"
  by (simp add: and_then_def)

lemma and_then_say: "and_then (say ls) f = (map Print ls @ fst (f ()), snd (f ()))"
  by (simp add: say_def and_then_Inr)

lemma and_then_call_None: "and_then (call ev None) f = (ev # fst (f ()), snd (f ()))"
  by (simp add: call_def and_then_Inr)

lemma and_then_call_Some: "and_then (call ev (Some e)) f = ([ev], Inl e)"
  by (simp add: call_def and_then_Inl)

lemma strptime_Nil: "strptime [] = Inl ValueError"
  by (simp add: strptime_def format_regex_match_def format_regex_def re_Y_def re_seq_def
      re_class_def)

lemma strptime_nonempty: "strptime s = Inr d \<Longrightarrow> s \<noteq> []"
  using strptime_Nil by auto

lemma validate_date_parsed: "strptime s = Inr d \<Longrightarrow> validate_date s = Inr True"
  by (simp add: validate_date_def)

lemma check_date_format_parsed:
  "strptime s = Inr d \<Longrightarrow> check_date_format mk (Some s) = ret []"
  by (simp add: check_date_format_def validate_date_parsed and_then_lift_Inr strptime_nonempty)

lemma check_date_order_parsed:
  "strptime s = Inr ds \<Longrightarrow> strptime e = Inr de \<Longrightarrow>
   check_date_order (Some s) (Some e) = ret (if date_gt ds de then [StartAfterEnd] else [])"
  by (simp add: check_date_order_def and_then_lift_Inr strptime_nonempty)

lemma check_keyword_file_result:
  "\<exists>errs. check_keyword_file w kf = ret errs \<and> StartAfterEnd \<notin> set errs"
  by (auto simp: check_keyword_file_def split: option.splits)

lemma check_output_dir_result:
  "\<exists>tr errs. check_output_dir w od = (tr, Inr errs) \<and> StartAfterEnd \<notin> set errs \<and>
     filter engine_event tr = [] \<and> Call_get_project_settings \<notin> set tr \<and>
     (\<forall>l. Print l \<notin> set tr)"
  by (simp add: check_output_dir_def ret_def split: option.splits)

lemma collect_errors_parsed:
  assumes "start_date a = Some s" and "end_date a = Some e"
    and "strptime s = Inr ds" and "strptime e = Inr de"
  shows "\<exists>tr errs. collect_errors w a = (tr, Inr errs) \<and>
           (StartAfterEnd \<in> set errs \<longleftrightarrow> date_gt ds de) \<and>
           filter engine_event tr = [] \<and> Call_get_project_settings \<notin> set tr \<and>
           (\<forall>l. Print l \<notin> set tr)"
proof -
  obtain e4 where e4: "check_keyword_file w (keyword_file a) = ret e4" "StartAfterEnd \<notin> set e4"
    using check_keyword_file_result by blast
  obtain tr e5 where e5: "check_output_dir w (output_dir a) = (tr, Inr e5)"
    "StartAfterEnd \<notin> set e5" "filter engine_event tr = []" "Call_get_project_settings \<notin> set tr"
    "\<forall>l. Print l \<notin> set tr"
    using check_output_dir_result by blast
  have "collect_errors w a =
      (tr, Inr ((if date_gt ds de then [StartAfterEnd] else []) @ e4 @ e5))"
    unfolding collect_errors_def
    by (simp add: assms check_date_format_parsed [OF assms(3)] check_date_format_parsed [OF assms(4)]
        check_date_order_parsed [OF assms(3,4)] e4 e5 and_then_ret and_then_Inr)
      (simp add: ret_def)
  then show ?thesis using e4 e5 by auto
qed

lemma validate_arguments_errors:
  "collect_errors w a = (tr, Inr errs) \<Longrightarrow> errs \<noteq> [] \<Longrightarrow>
   validate_arguments w a =
     (tr @ Print L_validation_failed # map (\<lambda>x. Print (L_validation_item x)) errs,
      Inl (SystemExit 1))"
  by (simp add: validate_arguments_def and_then_Inr and_then_say throw_def comp_def)

lemma validate_arguments_clean:
  "collect_errors w a = (tr, Inr []) \<Longrightarrow> validate_arguments w a = (tr, Inr ())"
  by (simp add: validate_arguments_def and_then_Inr ret_def)

lemma validate_arguments_raised:
  "collect_errors w a = (tr, Inl x) \<Longrightarrow> validate_arguments w a = (tr, Inl x)"
  by (simp add: validate_arguments_def and_then_Inl)

lemma check_date_format_result:
  "\<exists>errs. check_date_format mk d = ret errs"
proof (cases d)
  case None
  then show ?thesis by (simp add: check_date_format_def ret_def)
next
  case (Some s)
  have "\<exists>b. validate_date s = Inr b" using validate_date_calendar by blast
  then show ?thesis using Some by (auto simp: check_date_format_def and_then_lift_Inr ret_def)
qed

text \<open>
  With both dates given, a start date that does not parse makes the \<open>strptime\<close> call of
  the ordering check raise: the \<open>ValueError\<close> leaves \<open>validate_arguments\<close> before the
  format errors collected so far are printed.
\<close>

lemma validate_arguments_unparsed_start_raises:
  assumes "start_date a = Some s" and "end_date a = Some e" and "s \<noteq> []" and "e \<noteq> []"
    and "strptime s = Inl ValueError"
  shows "validate_arguments w a = ([], Inl ValueError)"
proof -
  obtain e1 where 1: "check_date_format StartDateFormat (start_date a) = (ret e1 :: ('a, validation_error list) run)"
    using check_date_format_result by blast
  obtain e2 where 2: "check_date_format EndDateFormat (end_date a) = (ret e2 :: ('a, validation_error list) run)"
    using check_date_format_result by blast
  have 3: "check_date_order (start_date a) (end_date a) = (throw ValueError :: ('a, validation_error list) run)"
    using assms by (simp add: check_date_order_def and_then_lift_Inl)
  have "collect_errors w a = ([], Inl ValueError)"
    by (simp add: collect_errors_def 1 2 3 and_then_ret and_then_throw) (simp add: throw_def)
  then show ?thesis by (rule validate_arguments_raised)
qed

lemma main_validation_failed:
  "parse_arguments w = Inr a \<Longrightarrow> validate_arguments w a = (tr, Inl x) \<Longrightarrow>
   main w = (Print L_starting # tr, Inl x)"
  by (simp add: main_def and_then_say and_then_lift_Inr and_then_Inl)

lemma main_validated:
  "parse_arguments w = Inr a \<Longrightarrow> validate_arguments w a = (tr, Inr ()) \<Longrightarrow>
   main w = (Print L_starting # tr @ fst (handlers (crawl_body w a)),
             snd (handlers (crawl_body w a)))"
  by (simp add: main_def and_then_say and_then_lift_Inr and_then_Inr)

lemma filter_engine_prints: "filter engine_event (map (\<lambda>x. Print (f x)) xs) = []"
  by (induction xs) auto

lemma filter_engine_map_Print: "filter engine_event (map Print ls) = []"
  by (induction ls) auto

text \<open>
  C1. When both dates are given, both parse and the start date is later than the end date,
  the program prints the header of the validation errors and every error, the ordering
  error among them, and ends with \<open>sys.exit(1)\<close>; nothing has reached the crawler
  process and the project settings have not been loaded.
\<close>

theorem main_rejects_start_after_end:
  assumes "parse_arguments w = Inr a"
    and "start_date a = Some s" and "end_date a = Some e"
    and "strptime s = Inr ds" and "strptime e = Inr de"
    and "date_gt ds de"
  shows "\<exists>tr errs. collect_errors w a = (tr, Inr errs) \<and> StartAfterEnd \<in> set errs \<and>
           main w = (Print L_starting # tr @ Print L_validation_failed #
                       map (\<lambda>x. Print (L_validation_item x)) errs,
                     Inl (SystemExit 1)) \<and>
           filter engine_event (fst (main w)) = [] \<and>
           Call_get_project_settings \<notin> set (fst (main w))"
proof -
  obtain tr errs where c: "collect_errors w a = (tr, Inr errs)"
    and m: "StartAfterEnd \<in> set errs"
    and t: "filter engine_event tr = []" "Call_get_project_settings \<notin> set tr"
    using collect_errors_parsed [OF assms(2-5), of w] assms(6) by blast
  have ne: "errs \<noteq> []" using m by auto
  have main: "main w = (Print L_starting # tr @ Print L_validation_failed #
                       map (\<lambda>x. Print (L_validation_item x)) errs,
                     Inl (SystemExit 1))"
    using main_validation_failed [OF assms(1) validate_arguments_errors [OF c ne] ] by simp
  have "filter engine_event (fst (main w)) = []"
    unfolding main using t(1) by (simp add: filter_engine_prints)
  moreover have "Call_get_project_settings \<notin> set (fst (main w))"
    unfolding main using t(2) by auto
  ultimately show ?thesis using c m main by blast
qed

text \<open>
  C8. With two dates that parse, \<open>validate_arguments\<close> reports the ordering error exactly
  when the start date is later than the end date; for equal dates it reports none.
\<close>

theorem validate_arguments_date_order:
  assumes "start_date a = Some s" and "end_date a = Some e"
    and "strptime s = Inr ds" and "strptime e = Inr de"
  shows "(ds = de \<longrightarrow>
            Print (L_validation_item StartAfterEnd) \<notin> set (fst (validate_arguments w a))) \<and>
         (Print (L_validation_item StartAfterEnd) \<in> set (fst (validate_arguments w a)) \<longleftrightarrow>
            date_gt ds de)"
proof -
  obtain tr errs where c: "collect_errors w a = (tr, Inr errs)"
    and m: "StartAfterEnd \<in> set errs \<longleftrightarrow> date_gt ds de"
    and t: "\<forall>l. Print l \<notin> set tr"
    using collect_errors_parsed [OF assms, of w] by blast
  have iff: "Print (L_validation_item StartAfterEnd) \<in> set (fst (validate_arguments w a)) \<longleftrightarrow>
      date_gt ds de"
  proof (cases "errs = []")
    case True
    then show ?thesis using validate_arguments_clean [of w a tr] c m t by auto
  next
    case False
    then show ?thesis using validate_arguments_errors [OF c False] m t by auto
  qed
  have "\<not> date_gt de de" by (simp add: date_gt_def)
  then show ?thesis using iff by auto
qed

lemmas strptime_eval =
  strptime_def format_regex_match_def format_regex_def re_Y_def re_m_def re_d_def re_seq_def
  re_alt_def re_class_def re_chr_def re_range_def ascii_def isdecimal_def digit_value_def
  digit_starts_def hyphen_def py_int_def int_strip_def int_space_def isspace_def digit_of_def
  datetime_def
  days_in_month_def isleap_def

theorem main_rejects_start_after_end_witness:
  "parse_arguments (world_of (no_flags\<lparr>start_date := Some (ascii ''2024-02-01''),
       end_date := Some (ascii ''2024-01-31'')\<rparr>) Map.empty :: real world) =
     Inr (no_flags\<lparr>start_date := Some (ascii ''2024-02-01''),
       end_date := Some (ascii ''2024-01-31'')\<rparr>) \<and>
   strptime (ascii ''2024-02-01'') = Inr \<lparr>year = 2024, month = 2, day = 1\<rparr> \<and>
   strptime (ascii ''2024-01-31'') = Inr \<lparr>year = 2024, month = 1, day = 31\<rparr> \<and>
   date_gt \<lparr>year = 2024, month = 2, day = 1\<rparr> \<lparr>year = 2024, month = 1, day = 31\<rparr> \<and>
   main (world_of (no_flags\<lparr>start_date := Some (ascii ''2024-02-01''),
       end_date := Some (ascii ''2024-01-31'')\<rparr>) Map.empty :: real world) =
     ([Print L_starting, Print L_validation_failed, Print (L_validation_item StartAfterEnd)],
      Inl (SystemExit 1))"
proof -
  let ?a = "no_flags\<lparr>start_date := Some (ascii ''2024-02-01''),
       end_date := Some (ascii ''2024-01-31'')\<rparr> :: real args"
  let ?w = "world_of ?a Map.empty"
  have p: "parse_arguments ?w = Inr ?a" by (simp add: world_of_def)
  have sd: "start_date ?a = Some (ascii ''2024-02-01'')" by simp
  have ed: "end_date ?a = Some (ascii ''2024-01-31'')" by simp
  have s: "strptime (ascii ''2024-02-01'') = Inr \<lparr>year = 2024, month = 2, day = 1\<rparr>"
    by (simp add: strptime_eval)
  have e: "strptime (ascii ''2024-01-31'') = Inr \<lparr>year = 2024, month = 1, day = 31\<rparr>"
    by (simp add: strptime_eval)
  have gt: "date_gt \<lparr>year = 2024, month = 2, day = 1\<rparr> \<lparr>year = 2024, month = 1, day = 31\<rparr>"
    by (simp add: date_gt_def)
  have c: "collect_errors ?w ?a = ([], Inr [StartAfterEnd])"
    by (simp add: collect_errors_def check_date_format_parsed [OF s]
        check_date_format_parsed [OF e] check_date_order_parsed [OF s e] date_gt_def and_then_ret
        check_keyword_file_def check_output_dir_def no_flags_def)
      (simp add: ret_def)
  from main_rejects_start_after_end [OF p sd ed s e gt] c p s e show ?thesis
    by (simp add: date_gt_def)
qed

theorem validate_arguments_date_order_witness:
  "strptime (ascii ''2024-01-01'') = Inr \<lparr>year = 2024, month = 1, day = 1\<rparr> \<and>
   strptime (ascii ''2024-1-1'') = Inr \<lparr>year = 2024, month = 1, day = 1\<rparr> \<and>
   Print (L_validation_item StartAfterEnd) \<notin>
     set (fst (validate_arguments (world_of no_flags Map.empty :: real world)
       (no_flags\<lparr>start_date := Some (ascii ''2024-01-01''),
          end_date := Some (ascii ''2024-1-1'')\<rparr>)))"
proof -
  let ?a = "no_flags\<lparr>start_date := Some (ascii ''2024-01-01''),
       end_date := Some (ascii ''2024-1-1'')\<rparr> :: real args"
  have sd: "start_date ?a = Some (ascii ''2024-01-01'')" by simp
  have ed: "end_date ?a = Some (ascii ''2024-1-1'')" by simp
  have s: "strptime (ascii ''2024-01-01'') = Inr \<lparr>year = 2024, month = 1, day = 1\<rparr>"
    by (simp add: strptime_eval)
  have e: "strptime (ascii ''2024-1-1'') = Inr \<lparr>year = 2024, month = 1, day = 1\<rparr>"
    by (simp add: strptime_eval)
  from validate_arguments_date_order [OF sd ed s e] s e show ?thesis by simp
qed

subsection \<open>The body of \<open>main\<close>\<close>

lemma say_quiet:
  "filter engine_event (fst (say xs)) = [] \<and>
   (snd (say xs) = Inr () \<or> snd (say xs) = Inl TypeError \<or> snd (say xs) = Inl ValueError)"
  by (simp add: say_def filter_engine_map_Print)

lemma summary_keywords_quiet:
  "filter engine_event (fst (summary_keywords v)) = [] \<and>
   (snd (summary_keywords v) = Inr () \<or> snd (summary_keywords v) = Inl TypeError \<or>
    snd (summary_keywords v) = Inl ValueError)"
  by (cases v) (auto simp: summary_keywords_def say_def throw_def)

lemma summary_lookup_quiet:
  "filter engine_event (fst (summary_lookup mk v)) = [] \<and>
   (snd (summary_lookup mk v) = Inr () \<or> snd (summary_lookup mk v) = Inl TypeError \<or>
    snd (summary_lookup mk v) = Inl ValueError)"
  by (cases v) (auto simp: summary_lookup_def say_def throw_def)

lemma summary_format_quiet:
  "filter engine_event (fst (summary_format vs l)) = [] \<and>
   (snd (summary_format vs l) = Inr () \<or> snd (summary_format vs l) = Inl TypeError \<or>
    snd (summary_format vs l) = Inl ValueError)"
  by (simp add: summary_format_def say_def throw_def)

lemma summary_limit_quiet:
  "filter engine_event (fst (summary_limit v)) = [] \<and>
   (snd (summary_limit v) = Inr () \<or> snd (summary_limit v) = Inl TypeError \<or>
    snd (summary_limit v) = Inl ValueError)"
  using summary_format_quiet [of "[v]" "L_summary_limit v"]
  by (simp add: summary_limit_def say_def)

lemma and_then_quiet:
  assumes "filter engine_event (fst m) = [] \<and>
           (snd m = Inr () \<or> snd m = Inl TypeError \<or> snd m = Inl ValueError)"
    and "filter engine_event (fst (f ())) = [] \<and>
         (snd (f ()) = Inr () \<or> snd (f ()) = Inl TypeError \<or> snd (f ()) = Inl ValueError)"
  shows "filter engine_event (fst (and_then m f)) = [] \<and>
         (snd (and_then m f) = Inr () \<or> snd (and_then m f) = Inl TypeError \<or>
          snd (and_then m f) = Inl ValueError)"
proof -
  obtain tr r where m: "m = (tr, r)" by (cases m)
  from assms(1) m consider "r = Inr ()" | "r = Inl TypeError" | "r = Inl ValueError" by auto
  then show ?thesis
  proof cases
    case 1
    then show ?thesis using assms m by (simp add: and_then_Inr)
  next
    case 2
    then show ?thesis using assms m by (simp add: and_then_Inl)
  next
    case 3
    then show ?thesis using assms m by (simp add: and_then_Inl)
  qed
qed

lemma print_config_summary_quiet:
  "filter engine_event (fst (print_config_summary st)) = [] \<and>
   (snd (print_config_summary st) = Inr () \<or> snd (print_config_summary st) = Inl TypeError \<or>
    snd (print_config_summary st) = Inl ValueError)"
  unfolding print_config_summary_def
  by (intro and_then_quiet say_quiet summary_keywords_quiet summary_lookup_quiet
      summary_format_quiet summary_limit_quiet)

lemma and_then_no_engine:
  assumes "filter engine_event (fst m) = []"
    and "\<And>x. filter engine_event (fst (f x)) = []"
  shows "filter engine_event (fst (and_then m f)) = []"
proof -
  obtain tr r where m: "m = (tr, r)" by (cases m)
  show ?thesis
  proof (cases r)
    case (Inl e)
    then show ?thesis using assms(1) m by (simp add: and_then_Inl)
  next
    case (Inr x)
    then show ?thesis using assms m by (simp add: and_then_Inr)
  qed
qed

lemma ret_no_engine: "filter engine_event (fst (ret x)) = []"
  by (simp add: ret_def)

lemma lift_no_engine: "filter engine_event (fst (lift r)) = []"
  by (simp add: lift_def)

lemma throw_no_engine: "filter engine_event (fst (throw e)) = []"
  by (simp add: throw_def)

lemma say_no_engine: "filter engine_event (fst (say ls)) = []"
  by (simp add: say_def filter_engine_map_Print)

lemma check_date_format_no_engine:
  "filter engine_event (fst (check_date_format mk d)) = []"
  unfolding check_date_format_def
  by (auto split: option.splits intro!: and_then_no_engine ret_no_engine lift_no_engine)

lemma check_date_order_no_engine:
  "filter engine_event (fst (check_date_order sd ed)) = []"
  unfolding check_date_order_def
  by (auto split: option.splits prod.splits
      intro!: and_then_no_engine ret_no_engine lift_no_engine)

lemma check_keyword_file_no_engine:
  "filter engine_event (fst (check_keyword_file w kf)) = []"
  by (simp add: check_keyword_file_def ret_def split: option.splits)

lemma check_output_dir_no_engine:
  "filter engine_event (fst (check_output_dir w od)) = []"
  by (simp add: check_output_dir_def ret_def split: option.splits)

lemma collect_errors_no_engine: "filter engine_event (fst (collect_errors w a)) = []"
  unfolding collect_errors_def
  by (intro and_then_no_engine check_date_format_no_engine check_date_order_no_engine
      check_keyword_file_no_engine check_output_dir_no_engine ret_no_engine)

lemma validate_arguments_no_engine:
  "filter engine_event (fst (validate_arguments w a)) = []"
  unfolding validate_arguments_def
  by (auto intro!: and_then_no_engine collect_errors_no_engine say_no_engine throw_no_engine
      ret_no_engine)

lemma handlers_Inr: "handlers (tr, Inr x) = (tr, Inr x)"
  by (simp add: handlers_def)

lemma handlers_SystemExit: "handlers (tr, Inl (SystemExit n)) = (tr, Inl (SystemExit n))"
  by (simp add: handlers_def)

lemma handlers_TypeError:
  "handlers (tr, Inl TypeError) = (tr @ [Print (L_runtime_error TypeError)], Inl (SystemExit 1))"
  by (simp add: handlers_def)

lemma handlers_ValueError:
  "handlers (tr, Inl ValueError) = (tr @ [Print (L_runtime_error ValueError)], Inl (SystemExit 1))"
  by (simp add: handlers_def)

lemma crawl_body_loaded:
  assumes "get_project_settings w = Inr st0"
  shows "crawl_body w a =
    (Call_get_project_settings # map Print (snd (update_settings_from_args st0 a)) @
       fst (and_then (print_config_summary (fst (update_settings_from_args st0 a)))
         (\<lambda>u. if \<not> truthy (settings_get (fst (update_settings_from_args st0 a))
                          ''KEYWORD_LIST'' VNone)
              then and_then (say [L_no_keywords, L_no_keywords_hint, L_no_keywords_example])
                     (\<lambda>u. throw (SystemExit 1))
              else and_then (say [L_ready, L_ctrl_c]) (\<lambda>u.
                   and_then (call (Call_CrawlerProcess (fst (update_settings_from_args st0 a)))
                      (CrawlerProcess w (fst (update_settings_from_args st0 a)))) (\<lambda>process.
                   and_then (call (Call_crawl ''search'') (crawl w ''search'')) (\<lambda>u.
                   and_then (call Call_start (start w)) (\<lambda>u.
                   say [L_finished])))))),
     snd (and_then (print_config_summary (fst (update_settings_from_args st0 a)))
         (\<lambda>u. if \<not> truthy (settings_get (fst (update_settings_from_args st0 a))
                          ''KEYWORD_LIST'' VNone)
              then and_then (say [L_no_keywords, L_no_keywords_hint, L_no_keywords_example])
                     (\<lambda>u. throw (SystemExit 1))
              else and_then (say [L_ready, L_ctrl_c]) (\<lambda>u.
                   and_then (call (Call_CrawlerProcess (fst (update_settings_from_args st0 a)))
                      (CrawlerProcess w (fst (update_settings_from_args st0 a)))) (\<lambda>process.
                   and_then (call (Call_crawl ''search'') (crawl w ''search'')) (\<lambda>u.
                   and_then (call Call_start (start w)) (\<lambda>u.
                   say [L_finished])))))))"
  unfolding crawl_body_def assms
  by (cases "update_settings_from_args st0 a") (simp add: and_then_Inr and_then_say)

lemma crawl_body_summary_raises:
  assumes "get_project_settings w = Inr st0"
    and "snd (print_config_summary (fst (update_settings_from_args st0 a))) \<noteq> Inr ()"
  shows "snd (handlers (crawl_body w a)) = Inl (SystemExit 1) \<and>
         filter engine_event (fst (handlers (crawl_body w a))) = []"
proof -
  let ?st = "fst (update_settings_from_args st0 a)"
  obtain tr r where p: "print_config_summary ?st = (tr, r)" by (cases "print_config_summary ?st")
  have q: "filter engine_event tr = []" "r = Inl TypeError \<or> r = Inl ValueError"
    using print_config_summary_quiet [of ?st] p assms(2) by simp_all
  from q(2) show ?thesis
  proof
    assume "r = Inl TypeError"
    then have "crawl_body w a =
        (Call_get_project_settings # map Print (snd (update_settings_from_args st0 a)) @ tr,
         Inl TypeError)"
      using p by (simp add: crawl_body_loaded [OF assms(1)] and_then_Inl)
    then show ?thesis using q(1) by (simp add: handlers_TypeError filter_engine_map_Print)
  next
    assume "r = Inl ValueError"
    then have "crawl_body w a =
        (Call_get_project_settings # map Print (snd (update_settings_from_args st0 a)) @ tr,
         Inl ValueError)"
      using p by (simp add: crawl_body_loaded [OF assms(1)] and_then_Inl)
    then show ?thesis using q(1) by (simp add: handlers_ValueError filter_engine_map_Print)
  qed
qed

lemma crawl_body_no_keywords:
  assumes "get_project_settings w = Inr st0"
    and "\<not> truthy (settings_get (fst (update_settings_from_args st0 a)) ''KEYWORD_LIST'' VNone)"
  shows "snd (handlers (crawl_body w a)) = Inl (SystemExit 1) \<and>
         filter engine_event (fst (handlers (crawl_body w a))) = []"
proof (cases "snd (print_config_summary (fst (update_settings_from_args st0 a))) = Inr ()")
  case False
  then show ?thesis using assms(1) by (intro crawl_body_summary_raises)
next
  case True
  let ?st = "fst (update_settings_from_args st0 a)"
  obtain tr where p: "print_config_summary ?st = (tr, Inr ())"
    using True by (cases "print_config_summary ?st") auto
  have q: "filter engine_event tr = []"
    using print_config_summary_quiet [of ?st] p by simp
  have "crawl_body w a =
      (Call_get_project_settings # map Print (snd (update_settings_from_args st0 a)) @ tr @
         map Print [L_no_keywords, L_no_keywords_hint, L_no_keywords_example],
       Inl (SystemExit 1))"
    using assms(2) p
    by (simp add: crawl_body_loaded [OF assms(1)] and_then_Inr and_then_say throw_def)
  then show ?thesis using q by (simp add: handlers_SystemExit filter_engine_map_Print)
qed

lemma split_pieces_subset: "set (concat (split sep s)) \<subseteq> set s"
proof (induction s)
  case Nil
  show ?case by simp
next
  case (Cons c cs)
  obtain p ps where ps: "split sep cs = p # ps"
    using split_not_Nil [of sep cs] by (cases "split sep cs") auto
  show ?case using Cons ps by (cases "c = sep") auto
qed

lemma strip_all_space:
  assumes "list_all isspace p"
  shows "strip p = []"
proof -
  have h: "dropWhile isspace p = []" using assms by (simp add: list_all_iff)
  show ?thesis unfolding strip_def h by simp
qed

lemma split_strip_blank:
  assumes "list_all (\<lambda>c. c = comma \<or> isspace c) s"
  shows "split_strip s = []"
proof -
  have "strip p = []" if "p \<in> set (split comma s)" for p
  proof -
    have "set p \<subseteq> set (concat (split comma s))" using that by auto
    then have "set p \<subseteq> set s" using split_pieces_subset by blast
    moreover have "comma \<notin> set p"
      using split_no_sep [of comma s] that by auto
    ultimately have "\<forall>c\<in>set p. isspace c"
      using assms unfolding list_all_iff by auto
    then have "list_all isspace p" by (simp add: list_all_iff)
    then show ?thesis by (rule strip_all_space)
  qed
  then show ?thesis by (simp add: split_strip_def filter_empty_conv)
qed

text \<open>
  C2. After the command line has parsed and validated and the project settings have
  loaded: when the keyword list is unset or empty once the arguments are applied, the run
  ends with exit code 1 and nothing has reached the crawler process. A \<open>--keywords\<close>
  string of commas and whitespace only is such a case: it leaves the empty list.
\<close>

theorem main_aborts_without_keywords:
  assumes "parse_arguments w = Inr a"
    and "snd (validate_arguments w a) = Inr ()"
    and "get_project_settings w = Inr st0"
  shows "(\<not> truthy (settings_get (fst (update_settings_from_args st0 a)) ''KEYWORD_LIST'' VNone) \<longrightarrow>
            snd (main w) = Inl (SystemExit 1) \<and> filter engine_event (fst (main w)) = []) \<and>
         (keywords_arg a = Some s \<and> s \<noteq> [] \<and> list_all (\<lambda>c. c = comma \<or> isspace c) s \<longrightarrow>
            fst (update_settings_from_args st0 a) ''KEYWORD_LIST'' = Some (VList []) \<and>
            snd (main w) = Inl (SystemExit 1) \<and> filter engine_event (fst (main w)) = [])"
proof -
  obtain tr where v: "validate_arguments w a = (tr, Inr ())"
    using assms(2) by (cases "validate_arguments w a") auto
  have tr: "filter engine_event tr = []"
    using validate_arguments_no_engine [of w a] v by simp
  have m: "main w = (Print L_starting # tr @ fst (handlers (crawl_body w a)),
             snd (handlers (crawl_body w a)))"
    using main_validated [OF assms(1) v] .
  have 1: "snd (main w) = Inl (SystemExit 1) \<and> filter engine_event (fst (main w)) = []"
    if "\<not> truthy (settings_get (fst (update_settings_from_args st0 a)) ''KEYWORD_LIST'' VNone)"
    using crawl_body_no_keywords [OF assms(3) that] tr unfolding m by simp
  have 2: "fst (update_settings_from_args st0 a) ''KEYWORD_LIST'' = Some (VList [])"
    if "keywords_arg a = Some s" "s \<noteq> []" "list_all (\<lambda>c. c = comma \<or> isspace c) s"
    using keyword_list_after_update [OF that(1,2), of st0] split_strip_blank [OF that(3)] by simp
  have 3: "\<not> truthy (settings_get (fst (update_settings_from_args st0 a)) ''KEYWORD_LIST'' VNone)"
    if "keywords_arg a = Some s" "s \<noteq> []" "list_all (\<lambda>c. c = comma \<or> isspace c) s"
    using 2 [OF that] by (simp add: settings_get_def)
  show ?thesis using 1 2 3 by blast
qed

theorem main_aborts_without_keywords_witness:
  "parse_arguments (world_of (no_flags\<lparr>keywords_arg := Some (ascii '', ,'')\<rparr>) Map.empty :: real world) =
     Inr (no_flags\<lparr>keywords_arg := Some (ascii '', ,'')\<rparr>) \<and>
   snd (validate_arguments
     (world_of (no_flags\<lparr>keywords_arg := Some (ascii '', ,'')\<rparr>) Map.empty :: real world)
     (no_flags\<lparr>keywords_arg := Some (ascii '', ,'')\<rparr>)) = Inr () \<and>
   get_project_settings
     (world_of (no_flags\<lparr>keywords_arg := Some (ascii '', ,'')\<rparr>) Map.empty :: real world) =
     Inr Map.empty \<and>
   ascii '', ,'' \<noteq> [] \<and> list_all (\<lambda>c. c = comma \<or> isspace c) (ascii '', ,'') \<and>
   \<not> truthy (settings_get (fst (update_settings_from_args (Map.empty :: real settings)
       (no_flags\<lparr>keywords_arg := Some (ascii '', ,'')\<rparr>))) ''KEYWORD_LIST'' VNone) \<and>
   snd (main (world_of (no_flags\<lparr>keywords_arg := Some (ascii '', ,'')\<rparr>) Map.empty :: real world)) =
     Inl (SystemExit 1) \<and>
   filter engine_event
     (fst (main (world_of (no_flags\<lparr>keywords_arg := Some (ascii '', ,'')\<rparr>) Map.empty :: real world))) = []"
proof -
  let ?a = "no_flags\<lparr>keywords_arg := Some (ascii '', ,'')\<rparr> :: real args"
  let ?w = "world_of ?a Map.empty"
  have p: "parse_arguments ?w = Inr ?a" by (simp add: world_of_def)
  have v: "snd (validate_arguments ?w ?a) = Inr ()"
    by (simp add: validate_arguments_def collect_errors_def check_date_format_def
        check_date_order_def check_keyword_file_def check_output_dir_def no_flags_def
        and_then_ret)
      (simp add: ret_def)
  have g: "get_project_settings ?w = Inr Map.empty" by (simp add: world_of_def)
  have b: "list_all (\<lambda>c. c = comma \<or> isspace c) (ascii '', ,'')"
    by (simp add: ascii_def comma_def isspace_def)
  have k: "keywords_arg ?a = Some (ascii '', ,'')" by simp
  have n: "ascii '', ,'' \<noteq> []" by (simp add: ascii_def)
  from main_aborts_without_keywords [OF p v g, of "ascii '', ,''"] p v g b k n
  show ?thesis by (simp add: settings_get_def)
qed

lemmas later_frames =
  frame_start_date frame_end_date frame_weibo_type frame_contain_type frame_region
  frame_limit frame_delay frame_output_dir frame_log_level frame_keywords

lemma keyword_list_after:
  "fst (update_settings_from_args st0 a) ''KEYWORD_LIST'' =
   fst (update_keywords a st0) ''KEYWORD_LIST''"
  by (simp add: update_settings_from_args_def fst_run_blocks_Cons fst_run_blocks_Nil
      later_frames del: run_blocks.simps)

lemma weibo_type_after:
  "fst (update_settings_from_args st0 a) ''WEIBO_TYPE'' =
   (case weibo_type a of None \<Rightarrow> st0 ''WEIBO_TYPE'' | Some n \<Rightarrow> Some (VInt n))"
proof -
  have "fst (update_weibo_type a st) ''WEIBO_TYPE'' =
      (case weibo_type a of None \<Rightarrow> st ''WEIBO_TYPE'' | Some n \<Rightarrow> Some (VInt n))"
    for st :: "'a settings"
    by (simp add: update_weibo_type_def settings_set_def split: option.splits)
  then show ?thesis
    by (simp add: update_settings_from_args_def fst_run_blocks_Cons fst_run_blocks_Nil
        later_frames del: run_blocks.simps split: option.splits)
qed

lemma contain_type_after:
  "fst (update_settings_from_args st0 a) ''CONTAIN_TYPE'' =
   (case contain_type a of None \<Rightarrow> st0 ''CONTAIN_TYPE'' | Some n \<Rightarrow> Some (VInt n))"
proof -
  have "fst (update_contain_type a st) ''CONTAIN_TYPE'' =
      (case contain_type a of None \<Rightarrow> st ''CONTAIN_TYPE'' | Some n \<Rightarrow> Some (VInt n))"
    for st :: "'a settings"
    by (simp add: update_contain_type_def settings_set_def split: option.splits)
  then show ?thesis
    by (simp add: update_settings_from_args_def fst_run_blocks_Cons fst_run_blocks_Nil
        later_frames del: run_blocks.simps split: option.splits)
qed

lemma limit_result_after:
  "fst (update_settings_from_args st0 a) ''LIMIT_RESULT'' =
   (case limit a of None \<Rightarrow> st0 ''LIMIT_RESULT'' | Some n \<Rightarrow> Some (VInt n))"
proof -
  have "fst (update_limit a st) ''LIMIT_RESULT'' =
      (case limit a of None \<Rightarrow> st ''LIMIT_RESULT'' | Some n \<Rightarrow> Some (VInt n))"
    for st :: "'a settings"
    by (simp add: update_limit_def settings_set_def split: option.splits)
  then show ?thesis
    by (simp add: update_settings_from_args_def fst_run_blocks_Cons fst_run_blocks_Nil
        later_frames del: run_blocks.simps split: option.splits)
qed

lemma handlers_engine: "filter engine_event (fst (handlers m)) = filter engine_event (fst m)"
proof -
  obtain tr r where m: "m = (tr, r)" by (cases m)
  show ?thesis
  proof (cases r)
    case (Inr x)
    then show ?thesis using m by (simp add: handlers_def)
  next
    case (Inl e)
    then show ?thesis using m by (cases e) (simp_all add: handlers_def)
  qed
qed

lemma engine_run:
  "filter engine_event
     (fst (and_then (call (Call_CrawlerProcess st) cp) (\<lambda>process.
           and_then (call (Call_crawl ''search'') cr) (\<lambda>u.
           and_then (call Call_start sr) (\<lambda>u.
           say [L_finished]))))) =
   Call_CrawlerProcess st #
     (if cp = None then Call_crawl ''search'' # (if cr = None then [Call_start] else [])
      else [])"
  by (cases cp; cases cr; cases sr)
    (simp_all add: and_then_call_None and_then_call_Some say_def)

lemma engine_run_completes:
  "and_then (call (Call_CrawlerProcess st) None) (\<lambda>process.
   and_then (call (Call_crawl ''search'') None) (\<lambda>u.
   and_then (call Call_start None) (\<lambda>u.
   say [L_finished]))) =
   ([Call_CrawlerProcess st, Call_crawl ''search'', Call_start, Print L_finished], Inr ())"
  by (simp add: and_then_call_None say_def)

lemma crawl_body_with_keywords:
  assumes "get_project_settings w = Inr st0"
    and "snd (print_config_summary (fst (update_settings_from_args st0 a))) = Inr ()"
    and "truthy (settings_get (fst (update_settings_from_args st0 a)) ''KEYWORD_LIST'' VNone)"
  shows "\<exists>pre. filter engine_event pre = [] \<and>
     crawl_body w a =
       (pre @ fst (and_then (call (Call_CrawlerProcess (fst (update_settings_from_args st0 a)))
                      (CrawlerProcess w (fst (update_settings_from_args st0 a)))) (\<lambda>process.
                   and_then (call (Call_crawl ''search'') (crawl w ''search'')) (\<lambda>u.
                   and_then (call Call_start (start w)) (\<lambda>u.
                   say [L_finished])))),
        snd (and_then (call (Call_CrawlerProcess (fst (update_settings_from_args st0 a)))
                      (CrawlerProcess w (fst (update_settings_from_args st0 a)))) (\<lambda>process.
                   and_then (call (Call_crawl ''search'') (crawl w ''search'')) (\<lambda>u.
                   and_then (call Call_start (start w)) (\<lambda>u.
                   say [L_finished])))))"
proof -
  let ?st = "fst (update_settings_from_args st0 a)"
  obtain tr r where p: "print_config_summary ?st = (tr, r)" by (cases "print_config_summary ?st")
  have r: "r = Inr ()" using assms(2) p by simp
  have q: "filter engine_event tr = []" using print_config_summary_quiet [of ?st] p by simp
  let ?pre = "Call_get_project_settings # map Print (snd (update_settings_from_args st0 a)) @ tr @
      map Print [L_ready, L_ctrl_c]"
  have "filter engine_event ?pre = []" using q by (simp add: filter_engine_map_Print)
  moreover have "crawl_body w a =
       (?pre @ fst (and_then (call (Call_CrawlerProcess ?st) (CrawlerProcess w ?st)) (\<lambda>process.
                   and_then (call (Call_crawl ''search'') (crawl w ''search'')) (\<lambda>u.
                   and_then (call Call_start (start w)) (\<lambda>u.
                   say [L_finished])))),
        snd (and_then (call (Call_CrawlerProcess ?st) (CrawlerProcess w ?st)) (\<lambda>process.
                   and_then (call (Call_crawl ''search'') (crawl w ''search'')) (\<lambda>u.
                   and_then (call Call_start (start w)) (\<lambda>u.
                   say [L_finished])))))"
    using assms(3) p r
    by (simp add: crawl_body_loaded [OF assms(1)] and_then_Inr and_then_say)
  ultimately show ?thesis by blast
qed

text \<open>
  C6, as amended. After the command line has parsed and validated and the project settings
  have loaded: when \<open>print_config_summary\<close> prints the summary of the updated settings
  without raising and the keyword list is not empty, \<open>main\<close> creates the crawler process
  once, with the settings as the arguments have updated them; if the process is created
  it registers one crawl, of the spider \<open>search\<close>, and if that is accepted it starts the
  process once. When these calls return, the line that announces the end of the crawl
  comes after the return of \<open>start\<close>, and \<open>main\<close> returns.
\<close>

theorem main_starts_one_crawl:
  assumes "parse_arguments w = Inr a"
    and "snd (validate_arguments w a) = Inr ()"
    and "get_project_settings w = Inr st0"
    and "snd (print_config_summary (fst (update_settings_from_args st0 a))) = Inr ()"
    and "truthy (settings_get (fst (update_settings_from_args st0 a)) ''KEYWORD_LIST'' VNone)"
  shows "filter engine_event (fst (main w)) =
           Call_CrawlerProcess (fst (update_settings_from_args st0 a)) #
             (if CrawlerProcess w (fst (update_settings_from_args st0 a)) = None
              then Call_crawl ''search'' #
                     (if crawl w ''search'' = None then [Call_start] else [])
              else []) \<and>
         (CrawlerProcess w (fst (update_settings_from_args st0 a)) = None \<and>
          crawl w ''search'' = None \<and> start w = None \<longrightarrow>
            (\<exists>tr. filter engine_event tr = [] \<and>
               main w = (tr @ [Call_CrawlerProcess (fst (update_settings_from_args st0 a)),
                               Call_crawl ''search'', Call_start, Print L_finished],
                         Inr ())))"
proof -
  let ?st = "fst (update_settings_from_args st0 a)"
  let ?E = "and_then (call (Call_CrawlerProcess ?st) (CrawlerProcess w ?st)) (\<lambda>process.
            and_then (call (Call_crawl ''search'') (crawl w ''search'')) (\<lambda>u.
            and_then (call Call_start (start w)) (\<lambda>u. say [L_finished])))"
  obtain tr where v: "validate_arguments w a = (tr, Inr ())"
    using assms(2) by (cases "validate_arguments w a") auto
  have tr: "filter engine_event tr = []"
    using validate_arguments_no_engine [of w a] v by simp
  have m: "main w = (Print L_starting # tr @ fst (handlers (crawl_body w a)),
             snd (handlers (crawl_body w a)))"
    using main_validated [OF assms(1) v] .
  obtain pre where pre: "filter engine_event pre = []"
    and cb: "crawl_body w a = (pre @ fst ?E, snd ?E)"
    using crawl_body_with_keywords [OF assms(3-5)] by blast
  have "filter engine_event (fst (main w)) = filter engine_event (fst ?E)"
    unfolding m using tr pre cb by (simp add: handlers_engine)
  then have 1: "filter engine_event (fst (main w)) =
           Call_CrawlerProcess ?st #
             (if CrawlerProcess w ?st = None
              then Call_crawl ''search'' #
                     (if crawl w ''search'' = None then [Call_start] else [])
              else [])"
    by (simp only: engine_run)
  have 2: "\<exists>tr'. filter engine_event tr' = [] \<and>
      main w = (tr' @ [Call_CrawlerProcess ?st, Call_crawl ''search'', Call_start,
                       Print L_finished], Inr ())"
    if "CrawlerProcess w ?st = None" "crawl w ''search'' = None" "start w = None"
  proof -
    have "?E = ([Call_CrawlerProcess ?st, Call_crawl ''search'', Call_start, Print L_finished],
        Inr ())"
      unfolding that by (rule engine_run_completes)
    then have "main w = ((Print L_starting # tr @ pre) @
        [Call_CrawlerProcess ?st, Call_crawl ''search'', Call_start, Print L_finished], Inr ())"
      unfolding m cb by (simp add: handlers_Inr)
    moreover have "filter engine_event (Print L_starting # tr @ pre) = []"
      using tr pre by simp
    ultimately show ?thesis by blast
  qed
  show ?thesis using 1 2 by blast
qed

lemma small_int_formats: "\<bar>n\<bar> < 100 \<Longrightarrow> formats (VInt n)"
proof -
  assume "\<bar>n\<bar> < 100"
  moreover have "(10::int) ^ 2 \<le> 10 ^ int_max_str_digits"
    by (rule power_increasing) (simp_all add: int_max_str_digits_def)
  ultimately show ?thesis by simp
qed

lemmas settings_after =
  keyword_list_after weibo_type_after contain_type_after limit_result_after update_frame

theorem main_starts_one_crawl_witness:
  "parse_arguments (world_of (no_flags\<lparr>keywords_arg := Some [26472, 24130], limit := Some 10\<rparr>) Map.empty :: real world) = Inr (no_flags\<lparr>keywords_arg := Some [26472, 24130], limit := Some 10\<rparr>) \<and>
   snd (validate_arguments (world_of (no_flags\<lparr>keywords_arg := Some [26472, 24130], limit := Some 10\<rparr>) Map.empty :: real world) (no_flags\<lparr>keywords_arg := Some [26472, 24130], limit := Some 10\<rparr>)) = Inr () \<and>
   get_project_settings (world_of (no_flags\<lparr>keywords_arg := Some [26472, 24130], limit := Some 10\<rparr>) Map.empty :: real world) = Inr Map.empty \<and>
   snd (print_config_summary (fst (update_settings_from_args (Map.empty :: real settings) (no_flags\<lparr>keywords_arg := Some [26472, 24130], limit := Some 10\<rparr>)))) =
     Inr () \<and>
   truthy (settings_get (fst (update_settings_from_args (Map.empty :: real settings) (no_flags\<lparr>keywords_arg := Some [26472, 24130], limit := Some 10\<rparr>)))
       ''KEYWORD_LIST'' VNone) \<and>
   filter engine_event (fst (main (world_of (no_flags\<lparr>keywords_arg := Some [26472, 24130], limit := Some 10\<rparr>) Map.empty :: real world))) =
     [Call_CrawlerProcess (fst (update_settings_from_args Map.empty (no_flags\<lparr>keywords_arg := Some [26472, 24130], limit := Some 10\<rparr>))),
      Call_crawl ''search'', Call_start] \<and>
   snd (main (world_of (no_flags\<lparr>keywords_arg := Some [26472, 24130], limit := Some 10\<rparr>) Map.empty :: real world)) = Inr ()"
proof -
  let ?a = "no_flags\<lparr>keywords_arg := Some [26472, 24130], limit := Some 10\<rparr> :: real args"
  let ?w = "world_of ?a Map.empty"
  have p: "parse_arguments ?w = Inr ?a" by (simp add: world_of_def)
  have v: "snd (validate_arguments ?w ?a) = Inr ()"
    by (simp add: validate_arguments_def collect_errors_def check_date_format_def
        check_date_order_def check_keyword_file_def check_output_dir_def no_flags_def
        and_then_ret)
      (simp add: ret_def)
  have g: "get_project_settings ?w = Inr Map.empty" by (simp add: world_of_def)
  have t: "snd (print_config_summary (fst (update_settings_from_args (Map.empty :: real settings) ?a))) =
      Inr ()"
    by (simp add: print_config_summary_def settings_get_def settings_after flag_keys_def
        update_keywords_def settings_set_def no_flags_def split_strip_def comma_def strip_def
        isspace_def summary_keywords_def summary_lookup_def summary_format_def
        summary_limit_def small_int_formats say_def throw_def and_then_Inr and_then_Inl
        del: formats.simps(1))
  have k: "truthy (settings_get (fst (update_settings_from_args (Map.empty :: real settings) ?a))
       ''KEYWORD_LIST'' VNone)"
    by (simp add: keyword_list_after update_keywords_def settings_set_def settings_get_def
        split_strip_def comma_def strip_def isspace_def)
  have e: "CrawlerProcess ?w st = None" "crawl ?w n = None" "start ?w = None"
    for st :: "real settings" and n
    by (simp_all add: world_of_def)
  from main_starts_one_crawl [OF p v g t k] p v g t k e show ?thesis by auto
qed

text \<open>
  The claim without the condition on the summary fails: with project settings whose
  \<open>WEIBO_TYPE\<close> is a list and the keyword \<open>a\<close>, validation and the update succeed and the
  keyword list is not empty, but the lookup of the type name raises \<open>TypeError\<close>; \<open>main\<close>
  ends with exit code 1 and nothing has reached the crawler process.
\<close>

theorem main_starts_one_crawl_counterexample:
  "parse_arguments (world_of keyword_a list_weibo_type :: real world) = Inr keyword_a \<and>
   snd (validate_arguments (world_of keyword_a list_weibo_type :: real world) keyword_a) =
     Inr () \<and>
   get_project_settings (world_of keyword_a list_weibo_type :: real world) =
     Inr list_weibo_type \<and>
   fst (update_settings_from_args (list_weibo_type :: real settings) keyword_a) ''KEYWORD_LIST'' =
     Some (VList [ [97] ]) \<and>
   truthy (settings_get
     (fst (update_settings_from_args (list_weibo_type :: real settings) keyword_a))
     ''KEYWORD_LIST'' VNone) \<and>
   snd (main (world_of keyword_a list_weibo_type :: real world)) = Inl (SystemExit 1) \<and>
   filter engine_event (fst (main (world_of keyword_a list_weibo_type :: real world))) = []"
proof -
  let ?a = "keyword_a :: real args"
  let ?s = "list_weibo_type :: real settings"
  let ?w = "world_of ?a ?s"
  have p: "parse_arguments ?w = Inr ?a" by (simp add: world_of_def)
  have v: "snd (validate_arguments ?w ?a) = Inr ()"
    by (simp add: validate_arguments_def collect_errors_def check_date_format_def
        check_date_order_def check_keyword_file_def check_output_dir_def no_flags_def
        keyword_a_def and_then_ret)
      (simp add: ret_def)
  obtain tr where vt: "validate_arguments ?w ?a = (tr, Inr ())"
    using v by (cases "validate_arguments ?w ?a") auto
  have tr: "filter engine_event tr = []"
    using validate_arguments_no_engine [of ?w ?a] vt by simp
  have g: "get_project_settings ?w = Inr ?s" by (simp add: world_of_def)
  have kl: "fst (update_settings_from_args ?s ?a) ''KEYWORD_LIST'' = Some (VList [ [97] ])"
    by (simp add: keyword_list_after update_keywords_def settings_set_def keyword_a_def
        split_strip_def comma_def strip_def isspace_def)
  have k: "truthy (settings_get (fst (update_settings_from_args ?s ?a)) ''KEYWORD_LIST'' VNone)"
    by (simp add: kl settings_get_def)
  have t: "snd (print_config_summary (fst (update_settings_from_args ?s ?a))) = Inl TypeError"
    by (simp add: print_config_summary_def settings_get_def settings_after flag_keys_def
        keyword_a_def list_weibo_type_def no_flags_def update_keywords_def settings_set_def
        split_strip_def comma_def strip_def isspace_def
        summary_keywords_def summary_lookup_def summary_format_def
        summary_limit_def small_int_formats say_def throw_def and_then_Inr and_then_Inl
        del: formats.simps(1))
  then have "snd (print_config_summary (fst (update_settings_from_args ?s ?a))) \<noteq> Inr ()"
    by simp
  from crawl_body_summary_raises [OF g this] main_validated [OF p vt] tr p v g kl k
  show ?thesis by simp
qed

subsection \<open>The crawl engine of the specification\<close>

text \<open>
  C5. A task of more than one calendar day is split into two sub-tasks whose days are
  disjoint and together are the days of the task, neither sub-task empty; a one-day task
  is not split.
\<close>

theorem split_task_partitions_days:
  "(date_start t < date_end t \<longrightarrow>
      (\<exists>l r. split_task t = Some (l, r) \<and> days l \<inter> days r = {} \<and>
         days l \<union> days r = days t \<and> days l \<noteq> {} \<and> days r \<noteq> {})) \<and>
   (date_start t = date_end t \<longrightarrow> split_task t = None)"
proof -
  have "days (t\<lparr>date_end := midpoint t\<rparr>) \<inter> days (t\<lparr>date_start := midpoint t + 1\<rparr>) = {}"
    by (auto simp: days_def)
  moreover have "days (t\<lparr>date_end := midpoint t\<rparr>) \<union> days (t\<lparr>date_start := midpoint t + 1\<rparr>) = days t"
    if "date_start t < date_end t"
    using that by (auto simp: days_def midpoint_def)
  moreover have "days (t\<lparr>date_end := midpoint t\<rparr>) \<noteq> {}" "days (t\<lparr>date_start := midpoint t + 1\<rparr>) \<noteq> {}"
    if "date_start t < date_end t"
    using that by (auto simp: days_def midpoint_def)
  ultimately show ?thesis by (simp add: split_task_def)
qed

lemma dedup_iff:
  "fst (dedup c seen) \<longleftrightarrow> content_id c \<notin> seen"
  by (simp add: dedup_def)

lemma dedup_seen:
  "snd (dedup c seen) = (if content_id c \<in> seen then seen else insert (content_id c) seen)"
  by (simp add: dedup_def)

lemma accept_records_ledger:
  "accept_records n cs L = (out, L', pr) \<Longrightarrow>
   seen_ids L' = seen_ids L \<union> content_id ` set out \<and>
   emitted_count L' = emitted_count L + length out \<and>
   cursor L' = cursor L \<and> queue L' = queue L \<and>
   distinct (map content_id out) \<and> content_id ` set out \<inter> seen_ids L = {}"
proof (induction cs arbitrary: L out L' pr)
  case Nil
  then show ?case by simp
next
  case (Cons c cs)
  show ?case
  proof (cases "content_id c \<in> seen_ids L")
    case True
    then have "accept_records n cs L = (out, L', pr)"
      using Cons.prems by (simp add: dedup_def)
    then show ?thesis by (rule Cons.IH)
  next
    case False
    let ?L1 = "L\<lparr>seen_ids := insert (content_id c) (seen_ids L), emitted_count := emitted_count L + 1\<rparr>"
    show ?thesis
    proof (cases "n \<noteq> 0 \<and> n \<le> emitted_count L + 1")
      case True
      then show ?thesis using Cons.prems False by (auto simp: dedup_def)
    next
      case stop: False
      obtain out1 L1 pr1 where r: "accept_records n cs ?L1 = (out1, L1, pr1)"
        by (cases "accept_records n cs ?L1") auto
      have e: "out = c # out1" "L' = L1" "pr = pr1"
        using Cons.prems False stop r by (auto simp: dedup_def)
      from Cons.IH [OF r] show ?thesis using False unfolding e by auto
    qed
  qed
qed


lemma next_page_fields:
  "seen_ids (next_page k L) = seen_ids L" "emitted_count (next_page k L) = emitted_count L"
  "queue (next_page k L) = queue L"
  "task_index (cursor (next_page k L)) = task_index (cursor L)"
  "page_number (cursor (next_page k L)) = page_number (cursor L) + 1"
  by (simp_all add: next_page_def)

lemma next_task_fields:
  "seen_ids (next_task L) = seen_ids L" "emitted_count (next_task L) = emitted_count L"
  "queue (next_task L) = queue L"
  "task_index (cursor (next_task L)) = task_index (cursor L) + 1"
  "page_number (cursor (next_task L)) = 1"
  by (simp_all add: next_task_def)

lemma run_pages_ledger:
  "run_pages n ps L = (out, L', pr) \<Longrightarrow>
   seen_ids L' = seen_ids L \<union> content_id ` set out \<and>
   emitted_count L' = emitted_count L + length out \<and>
   queue L' = queue L \<and> task_index (cursor L') = task_index (cursor L) \<and>
   page_number (cursor L) \<le> page_number (cursor L') \<and>
   distinct (map content_id out) \<and> content_id ` set out \<inter> seen_ids L = {}"
proof (induction ps arbitrary: L out L' pr)
  case Nil
  then show ?case by simp
next
  case (Cons p ps)
  obtain o1 La pr1 where a: "accept_records n p L = (o1, La, pr1)"
    by (cases "accept_records n p L") auto
  note la = accept_records_ledger [OF a]
  show ?case
  proof (cases pr1)
    case LimitReached
    then have "out = o1" "L' = La" using Cons.prems a by auto
    then show ?thesis using la by simp
  next
    case Continue
    obtain o2 Lb pr2 where b: "run_pages n ps (next_page (length p) La) = (o2, Lb, pr2)"
      by (cases "run_pages n ps (next_page (length p) La)") auto
    have e: "out = o1 @ o2" "L' = Lb" "pr = pr2"
      using Cons.prems a b Continue by auto
    note lb = Cons.IH [OF b]
    show ?thesis unfolding e using la lb by (auto simp: next_page_fields)
  qed
qed

lemma run_queue_ledger:
  "run_queue n ep ts L = (out, L', pr) \<Longrightarrow>
   seen_ids L' = seen_ids L \<union> content_id ` set out \<and>
   emitted_count L' = emitted_count L + length out \<and>
   queue L' = queue L \<and> task_index (cursor L) \<le> task_index (cursor L') \<and>
   (pr = Continue \<longrightarrow> task_index (cursor L') = task_index (cursor L) + length ts) \<and>
   distinct (map content_id out) \<and> content_id ` set out \<inter> seen_ids L = {}"
proof (induction ts arbitrary: L out L' pr)
  case Nil
  then show ?case by simp
next
  case (Cons t ts)
  obtain o1 La pr1 where a:
    "run_pages n (drop (page_number (cursor L) - 1) (ep t)) L = (o1, La, pr1)"
    by (cases "run_pages n (drop (page_number (cursor L) - 1) (ep t)) L") auto
  note la = run_pages_ledger [OF a]
  show ?case
  proof (cases pr1)
    case LimitReached
    then have "out = o1" "L' = La" "pr = LimitReached" using Cons.prems a by auto
    then show ?thesis using la by simp
  next
    case Continue
    obtain o2 Lb pr2 where b: "run_queue n ep ts (next_task La) = (o2, Lb, pr2)"
      by (cases "run_queue n ep ts (next_task La)") auto
    have e: "out = o1 @ o2" "L' = Lb" "pr = pr2"
      using Cons.prems a b Continue by auto
    note lb = Cons.IH [OF b]
    show ?thesis unfolding e using la lb by (auto simp: next_task_fields)
  qed
qed



lemma accept_records_seen:
  "content_id c \<in> seen_ids L \<Longrightarrow> accept_records n (c # cs) L = accept_records n cs L"
  by (simp add: dedup_def)










lemma run_ledger:
  "run n ep L = (out, L', pr) \<Longrightarrow>
   seen_ids L' = seen_ids L \<union> content_id ` set out \<and>
   emitted_count L' = emitted_count L + length out \<and>
   distinct (map content_id out) \<and> content_id ` set out \<inter> seen_ids L = {}"
  unfolding run_def using run_queue_ledger by blast

text \<open>
  C3. A candidate is accepted iff its \<open>content_id\<close> is not in the seen set, and accepting
  adds it. Over a whole run, whatever the tasks of the queue and their pages, and from
  whatever ledger the run starts: no two emitted records share a \<open>content_id\<close>, none has
  one the ledger had seen before, and the seen set afterwards is the one before with the
  identities of the emitted records.
\<close>

theorem dedup_at_most_once:
  "(fst (dedup c seen) \<longleftrightarrow> content_id c \<notin> seen) \<and>
   snd (dedup c seen) = (if content_id c \<in> seen then seen else insert (content_id c) seen) \<and>
   distinct (map content_id (fst (run n ep L))) \<and>
   content_id ` set (fst (run n ep L)) \<inter> seen_ids L = {} \<and>
   seen_ids (fst (snd (run n ep L))) = seen_ids L \<union> content_id ` set (fst (run n ep L))"
proof -
  obtain out L' pr where r: "run n ep L = (out, L', pr)" by (cases "run n ep L") auto
  show ?thesis using run_ledger [OF r] r by (simp add: dedup_iff dedup_seen)
qed




lemmas engine_eval =
  run_def fresh_ledger_def two_day_endpoint_def day_task_def post_def dedup_def next_page_def
  next_task_def


theorem dedup_at_most_once_witness:
  "fst (run 0 two_day_endpoint (fresh_ledger [day_task 738886 738886, day_task 738887 738887])) =
     [post 1, post 2, post 3, post 4] \<and>
   distinct (map content_id
     (fst (run 0 two_day_endpoint
        (fresh_ledger [day_task 738886 738886, day_task 738887 738887])))) \<and>
   seen_ids (fst (snd (run 0 two_day_endpoint
        (fresh_ledger [day_task 738886 738886, day_task 738887 738887])))) = {[1], [2], [3], [4]}"
proof -
  let ?q = "[day_task 738886 738886, day_task 738887 738887]"
  have all: "fst (run 0 two_day_endpoint (fresh_ledger ?q)) = [post 1, post 2, post 3, post 4]"
    by (simp add: engine_eval)
  from dedup_at_most_once [of "post 1" "{}" 0 two_day_endpoint "fresh_ledger ?q"] all
  show ?thesis by (auto simp: fresh_ledger_def post_def)
qed

theorem split_task_partitions_days_witness:
  "date_start (day_task 738886 738887) < date_end (day_task 738886 738887) \<and>
   split_task (day_task 738886 738887) =
     Some (day_task 738886 738886, day_task 738887 738887) \<and>
   days (day_task 738886 738886) \<inter> days (day_task 738887 738887) = {} \<and>
   days (day_task 738886 738886) \<union> days (day_task 738887 738887) =
     days (day_task 738886 738887) \<and>
   date_start (day_task 738886 738886) = date_end (day_task 738886 738886) \<and>
   split_task (day_task 738886 738886) = None"
proof -
  have s: "split_task (day_task 738886 738887) =
      Some (day_task 738886 738886, day_task 738887 738887)"
    by (simp add: split_task_def day_task_def midpoint_def)
  from split_task_partitions_days [of "day_task 738886 738887"]
    split_task_partitions_days [of "day_task 738886 738886"] s
  show ?thesis by (simp add: day_task_def)
qed

end
